theory Spec2Isabelle
  imports Complex_Main
begin

section \<open>The HOMA-IR estimator of estimate\_HOMA\_IR.ipynb\<close>

text \<open>
  The notebook holds one function, \<^verbatim>\<open>estimate_homa_ir\<close>, and an example driver
  under \<^verbatim>\<open>if __name__ == "__main__"\<close>. The function is a straight line of five
  assignments and a return; its only operations are \<^verbatim>\<open>*\<close> and the true division
  \<^verbatim>\<open>/\<close>.

  The function is embedded twice, once for each way its numbers are read.
  \<^item> \<open>estimate_homa_ir\<close> reads them as reals, as the specification's data model
    does ("plain real numbers"): \<^verbatim>\<open>*\<close> and \<^verbatim>\<open>/\<close> are exact. It says what
    the formula is.
  \<^item> \<open>estimate_homa_ir_float\<close> reads them as Python does: an argument is an
    \<^verbatim>\<open>int\<close> or a \<^verbatim>\<open>float\<close> (IEEE 754 binary64), every intermediate value is a
    float, every operation rounds to the nearest float (ties to even), a result too
    large becomes \<^verbatim>\<open>inf\<close>, and an int too large for a float raises
    \<^verbatim>\<open>OverflowError\<close>. It says what a call returns.

  What Python does beyond computing a value is explicit: \<^verbatim>\<open>/\<close> raises
  \<^verbatim>\<open>ZeroDivisionError\<close> on a zero divisor, so every division is a step that can
  fail, and \<^verbatim>\<open>print\<close> appends a line to the standard output, which the driver
  takes and returns.
\<close>

subsection \<open>Errors and arithmetic\<close>

datatype error = ZeroDivisionError | OverflowError

text \<open>Python's \<^verbatim>\<open>a / b\<close> on numbers read as reals.\<close>

definition py_div :: "real \<Rightarrow> real \<Rightarrow> error + real" where
  "py_div a b = (if b = 0 then Inl ZeroDivisionError else Inr (a / b))"

text \<open>Sequencing: an exception raised by a step ends the computation.\<close>

definition bind_result :: "error + 'a \<Rightarrow> ('a \<Rightarrow> error + 'b) \<Rightarrow> error + 'b" where
  "bind_result r k = (case r of Inl e \<Rightarrow> Inl e | Inr v \<Rightarrow> k v)"

subsection \<open>The estimator, in exact arithmetic\<close>

text \<open>
  \<^verbatim>\<open>
  def estimate_homa_ir(total_daily_insulin_IU, fasting_glucose_mg_dl):
      insulin_infusion_rate_IU_per_hour = total_daily_insulin_IU / 24
      insulin_infusion_rate_pmol_per_min = (
          insulin_infusion_rate_IU_per_hour * 6 * 1_000
      ) / 60
      insulin_clearance_mL_per_min = 1_500
      Css_pmol_per_L = (
          insulin_infusion_rate_pmol_per_min / insulin_clearance_mL_per_min
      ) * 1_000
      fasting_insulin_uU_per_mL = Css_pmol_per_L / 6
      homa_ir = (fasting_insulin_uU_per_mL * fasting_glucose_mg_dl) / 405
      return homa_ir
  \<close>
  Each assignment is one binding, in the source's order and with the source's names;
  \<open>quotient\<close> names the parenthesised division of step 3, which the source multiplies
  by 1000 in the same expression.
\<close>

definition estimate_homa_ir :: "real \<Rightarrow> real \<Rightarrow> error + real" where
  "estimate_homa_ir total_daily_insulin_IU fasting_glucose_mg_dl =
     bind_result (py_div total_daily_insulin_IU 24)
       (\<lambda>insulin_infusion_rate_IU_per_hour.
     bind_result (py_div (insulin_infusion_rate_IU_per_hour * 6 * 1000) 60)
       (\<lambda>insulin_infusion_rate_pmol_per_min.
     let insulin_clearance_mL_per_min = 1500 in
     bind_result (py_div insulin_infusion_rate_pmol_per_min insulin_clearance_mL_per_min)
       (\<lambda>quotient.
     let Css_pmol_per_L = quotient * 1000 in
     bind_result (py_div Css_pmol_per_L 6)
       (\<lambda>fasting_insulin_uU_per_mL.
     bind_result (py_div (fasting_insulin_uU_per_mL * fasting_glucose_mg_dl) 405)
       (\<lambda>homa_ir.
     Inr homa_ir)))))"

subsection \<open>Formatting with two decimal places\<close>

text \<open>
  The driver formats the estimate with the format specification \<^verbatim>\<open>.2f\<close>: the
  value rounded to hundredths (a tie goes to the even neighbour), written as a minus
  sign when the value is negative, the decimal digits of the integer part, a point and
  exactly two digits. The argument is a real, which has no negative zero.
\<close>

definition digit_char :: "nat \<Rightarrow> char" where
  "digit_char n = ''0123456789'' ! n"

fun digits_of :: "nat \<Rightarrow> string" where
  "digits_of n =
     (if n < 10 then [digit_char n] else digits_of (n div 10) @ [digit_char (n mod 10)])"

declare digits_of.simps [simp del]

definition round_half_even :: "real \<Rightarrow> int" where
  "round_half_even x =
     (let n = \<lfloor>x\<rfloor>; r = x - of_int n
      in if r < 1 / 2 then n else if 1 / 2 < r then n + 1 else if even n then n else n + 1)"

definition format_2f :: "real \<Rightarrow> string" where
  "format_2f x =
     (let c = nat (round_half_even (\<bar>x\<bar> * 100))
      in (if x < 0 then ''-'' else '''') @ digits_of (c div 100) @ ''.'' @
         [digit_char (c mod 100 div 10), digit_char (c mod 10)])"

subsection \<open>The example driver\<close>

text \<open>
  \<^verbatim>\<open>
  if __name__ == "__main__":
      total_daily_insulin = 20
      fasting_glucose = 140
      homa_ir_estimate = estimate_homa_ir(total_daily_insulin, fasting_glucose)
      print(f"Estimated HOMA-IR: {homa_ir_estimate:.2f}")
  \<close>
  The guard holds when the notebook cell is run. The standard output is the list of
  the lines printed so far; the driver returns it with its line appended.
\<close>

definition main :: "string list \<Rightarrow> error + string list" where
  "main stdout =
     (let total_daily_insulin = 20; fasting_glucose = 140 in
      bind_result (estimate_homa_ir total_daily_insulin fasting_glucose)
        (\<lambda>homa_ir_estimate.
      Inr (stdout @ [''Estimated HOMA-IR: '' @ format_2f homa_ir_estimate])))"

section \<open>Python's numbers\<close>

text \<open>
  The arguments of a call are Python numbers: an \<^verbatim>\<open>int\<close>, of any size, or a
  \<^verbatim>\<open>float\<close>. The literals of the function are ints; the result of \<^verbatim>\<open>/\<close> is
  always a float.
\<close>

subsection \<open>Floats\<close>

text \<open>
  A float is a sign bit (\<open>True\<close> for minus) with a magnitude, an infinity with its
  sign, or \<^verbatim>\<open>nan\<close>. \<open>Finite False 0\<close> is \<^verbatim>\<open>0.0\<close> and \<open>Finite True 0\<close> is
  \<^verbatim>\<open>-0.0\<close>. The magnitudes of the floats are the reals \<open>m * 2 ^ e\<close> with
  \<open>0 \<le> m < 2 ^ 53\<close> and \<open>- 1074 \<le> e \<le> 971\<close>; the largest is
  \<open>(2 ^ 53 - 1) * 2 ^ 971\<close>, just below \<open>2 ^ 1024\<close>.
\<close>

datatype float64 = Finite bool real | Infinity bool | NaN

datatype pyval = PyInt int | PyFloat float64

definition pow2 :: "int \<Rightarrow> real" where
  "pow2 e = (if 0 \<le> e then 2 ^ nat e else 1 / 2 ^ nat (- e))"

text \<open>
  The exponent of the last place of a magnitude \<open>x\<close>: the largest \<open>e\<close> from
  \<open>- 1074\<close> to \<open>971\<close> with \<open>2 ^ (e + 52) \<le> x\<close>, and \<open>- 1074\<close> when there is none
  (the subnormal range and the lowest normal binade). \<open>search_exponent n\<close> looks
  through the \<open>n\<close> exponents above \<open>- 1074\<close>, the largest first.
\<close>

primrec search_exponent :: "nat \<Rightarrow> real \<Rightarrow> int" where
  "search_exponent 0 x = - 1074"
| "search_exponent (Suc n) x =
     (if pow2 (int n - 1021) \<le> x then int n - 1073 else search_exponent n x)"

definition ulp_exponent :: "real \<Rightarrow> int" where
  "ulp_exponent x = search_exponent 2045 x"

text \<open>
  Rounding a magnitude to the nearest multiple of its last place, a tie to the even
  multiple (the default rounding of IEEE 754). The exponent stops at 971, so a
  magnitude that rounds to \<open>2 ^ 1024\<close> or more has overflowed.
\<close>

definition round_magnitude :: "real \<Rightarrow> real" where
  "round_magnitude x =
     (let e = ulp_exponent x in of_int (round_half_even (x / pow2 e)) * pow2 e)"

text \<open>The float of a sign and an exact magnitude: rounded, infinite on overflow.\<close>

definition pack :: "bool \<Rightarrow> real \<Rightarrow> float64" where
  "pack s x =
     (let m = round_magnitude x in if pow2 1024 \<le> m then Infinity s else Finite s m)"

subsection \<open>The operators\<close>

text \<open>
  The conversion of an int to a float rounds it and raises \<^verbatim>\<open>OverflowError\<close>
  ("int too large to convert to float") where the float would be infinite.
\<close>

definition float_of_int :: "int \<Rightarrow> error + float64" where
  "float_of_int i =
     (let m = round_magnitude \<bar>of_int i\<bar>
      in if pow2 1024 \<le> m then Inl OverflowError else Inr (Finite (i < 0) m))"

fun to_float :: "pyval \<Rightarrow> error + float64" where
  "to_float (PyInt i) = float_of_int i"
| "to_float (PyFloat x) = Inr x"

text \<open>
  The product and the quotient of two floats: the sign is the exclusive or of the
  signs, the magnitude is the rounded exact result, an overflow gives an infinity and
  raises nothing, and \<^verbatim>\<open>inf * 0\<close> and \<^verbatim>\<open>inf / inf\<close> are \<^verbatim>\<open>nan\<close>.
\<close>

fun float_mul :: "float64 \<Rightarrow> float64 \<Rightarrow> float64" where
  "float_mul (Finite s m) (Finite t n) = pack (s \<noteq> t) (m * n)"
| "float_mul (Finite s m) (Infinity t) = (if m = 0 then NaN else Infinity (s \<noteq> t))"
| "float_mul (Infinity s) (Finite t n) = (if n = 0 then NaN else Infinity (s \<noteq> t))"
| "float_mul (Infinity s) (Infinity t) = Infinity (s \<noteq> t)"
| "float_mul NaN y = NaN"
| "float_mul x NaN = NaN"

fun float_quotient :: "float64 \<Rightarrow> float64 \<Rightarrow> float64" where
  "float_quotient (Finite s m) (Finite t n) = pack (s \<noteq> t) (m / n)"
| "float_quotient (Finite s m) (Infinity t) = Finite (s \<noteq> t) 0"
| "float_quotient (Infinity s) (Finite t n) = Infinity (s \<noteq> t)"
| "float_quotient (Infinity s) (Infinity t) = NaN"
| "float_quotient NaN y = NaN"
| "float_quotient x NaN = NaN"

fun is_zero :: "float64 \<Rightarrow> bool" where
  "is_zero (Finite s m) = (m = 0)"
| "is_zero x = False"

text \<open>Python's float division raises on a zero divisor, whatever the dividend.\<close>

definition float_div :: "float64 \<Rightarrow> float64 \<Rightarrow> error + float64" where
  "float_div x y = (if is_zero y then Inl ZeroDivisionError else Inr (float_quotient x y))"

text \<open>
  Python's \<^verbatim>\<open>a * b\<close>: the product of two ints is an int; otherwise both operands
  are converted to floats, the left one first.
\<close>

fun py_mul :: "pyval \<Rightarrow> pyval \<Rightarrow> error + pyval" where
  "py_mul (PyInt a) (PyInt b) = Inr (PyInt (a * b))"
| "py_mul x y =
     bind_result (to_float x) (\<lambda>a.
     bind_result (to_float y) (\<lambda>b.
     Inr (PyFloat (float_mul a b))))"

text \<open>
  Python's \<^verbatim>\<open>a / b\<close>: the quotient of two ints is the exact quotient rounded once
  to a float, with \<^verbatim>\<open>OverflowError\<close> ("integer division result too large for a
  float") where it would be infinite; otherwise both operands are converted to floats
  and divided.
\<close>

fun py_truediv :: "pyval \<Rightarrow> pyval \<Rightarrow> error + pyval" where
  "py_truediv (PyInt a) (PyInt b) =
     (if b = 0 then Inl ZeroDivisionError
      else let m = round_magnitude (\<bar>of_int a\<bar> / \<bar>of_int b\<bar>)
           in if pow2 1024 \<le> m then Inl OverflowError
              else Inr (PyFloat (Finite ((a < 0) \<noteq> (b < 0)) m)))"
| "py_truediv x y =
     bind_result (to_float x) (\<lambda>a.
     bind_result (to_float y) (\<lambda>b.
     bind_result (float_div a b) (\<lambda>q.
     Inr (PyFloat q))))"

text \<open>Python's unary minus and its \<^verbatim>\<open>==\<close> on numbers, which compares values exactly.\<close>

fun float_neg :: "float64 \<Rightarrow> float64" where
  "float_neg (Finite s m) = Finite (\<not> s) m"
| "float_neg (Infinity s) = Infinity (\<not> s)"
| "float_neg NaN = NaN"

fun py_neg :: "pyval \<Rightarrow> pyval" where
  "py_neg (PyInt i) = PyInt (- i)"
| "py_neg (PyFloat x) = PyFloat (float_neg x)"

definition signed :: "bool \<Rightarrow> real \<Rightarrow> real" where
  "signed s m = (if s then - m else m)"

fun py_eq :: "pyval \<Rightarrow> pyval \<Rightarrow> bool" where
  "py_eq (PyInt a) (PyInt b) = (a = b)"
| "py_eq (PyInt a) (PyFloat (Finite t n)) = (of_int a = signed t n)"
| "py_eq (PyFloat (Finite s m)) (PyInt b) = (signed s m = of_int b)"
| "py_eq (PyFloat (Finite s m)) (PyFloat (Finite t n)) = (signed s m = signed t n)"
| "py_eq (PyFloat (Infinity s)) (PyFloat (Infinity t)) = (s = t)"
| "py_eq x y = False"

subsection \<open>The estimator, on Python's numbers\<close>

text \<open>
  The same nine operations as \<open>estimate_homa_ir\<close>, in the source's order:
  \<^verbatim>\<open>a * 6 * 1_000\<close> is \<^verbatim>\<open>(a * 6) * 1_000\<close>, and \<open>times_6\<close>, \<open>times_1000\<close>,
  \<open>quotient\<close> and \<open>product\<close> name the values of the subexpressions.
\<close>

definition estimate_homa_ir_float :: "pyval \<Rightarrow> pyval \<Rightarrow> error + pyval" where
  "estimate_homa_ir_float total_daily_insulin_IU fasting_glucose_mg_dl =
     bind_result (py_truediv total_daily_insulin_IU (PyInt 24))
       (\<lambda>insulin_infusion_rate_IU_per_hour.
     bind_result (py_mul insulin_infusion_rate_IU_per_hour (PyInt 6))
       (\<lambda>times_6.
     bind_result (py_mul times_6 (PyInt 1000))
       (\<lambda>times_1000.
     bind_result (py_truediv times_1000 (PyInt 60))
       (\<lambda>insulin_infusion_rate_pmol_per_min.
     let insulin_clearance_mL_per_min = PyInt 1500 in
     bind_result (py_truediv insulin_infusion_rate_pmol_per_min insulin_clearance_mL_per_min)
       (\<lambda>quotient.
     bind_result (py_mul quotient (PyInt 1000))
       (\<lambda>Css_pmol_per_L.
     bind_result (py_truediv Css_pmol_per_L (PyInt 6))
       (\<lambda>fasting_insulin_uU_per_mL.
     bind_result (py_mul fasting_insulin_uU_per_mL fasting_glucose_mg_dl)
       (\<lambda>product.
     bind_result (py_truediv product (PyInt 405))
       (\<lambda>homa_ir.
     Inr homa_ir)))))))))"

subsection \<open>Conditions on the arguments\<close>

text \<open>
  A zero (the int 0, \<^verbatim>\<open>0.0\<close> or \<^verbatim>\<open>-0.0\<close>); \<^verbatim>\<open>nan\<close>; an int or a finite float
  of magnitude at most \<open>b\<close>; and an int or a float (a magnitude that rounding leaves
  as it is) of magnitude from \<open>2 ^ lo\<close> to \<open>2 ^ hi\<close>.
\<close>

fun py_is_zero :: "pyval \<Rightarrow> bool" where
  "py_is_zero (PyInt i) = (i = 0)"
| "py_is_zero (PyFloat x) = is_zero x"

fun py_is_nan :: "pyval \<Rightarrow> bool" where
  "py_is_nan (PyFloat NaN) = True"
| "py_is_nan x = False"

fun py_abs_le :: "pyval \<Rightarrow> real \<Rightarrow> bool" where
  "py_abs_le (PyInt i) b = (\<bar>of_int i\<bar> \<le> b)"
| "py_abs_le (PyFloat (Finite s m)) b = (m \<le> b)"
| "py_abs_le (PyFloat x) b = False"

fun py_magnitude_in :: "pyval \<Rightarrow> int \<Rightarrow> int \<Rightarrow> bool" where
  "py_magnitude_in (PyInt i) lo hi = (pow2 lo \<le> \<bar>of_int i\<bar> \<and> \<bar>of_int i\<bar> \<le> pow2 hi)"
| "py_magnitude_in (PyFloat (Finite s m)) lo hi =
     (round_magnitude m = m \<and> pow2 lo \<le> m \<and> m \<le> pow2 hi)"
| "py_magnitude_in (PyFloat x) lo hi = False"

section \<open>What the function computes in exact arithmetic\<close>

text \<open>
  No divisor is zero, so every step returns and the five steps compose to one
  quotient. The lemmas below are shared by the theorems of the following sections.
\<close>

lemma py_div_nonzero: "b \<noteq> 0 \<Longrightarrow> py_div a b = Inr (a / b)"
  by (simp add: py_div_def)

lemma bind_result_Inr: "bind_result (Inr v) k = k v"
  by (simp add: bind_result_def)

lemma bind_result_Inl: "bind_result (Inl e) k = Inl e"
  by (simp add: bind_result_def)

lemma estimate_homa_ir_steps:
  "estimate_homa_ir d g = Inr ((((((d / 24) * 6 * 1000 / 60) / 1500) * 1000) / 6 * g) / 405)"
  unfolding estimate_homa_ir_def Let_def
  by (simp add: py_div_nonzero bind_result_Inr)

lemma estimate_homa_ir_scaled: "estimate_homa_ir d g = Inr (25 * d * g / 21870)"
  by (simp add: estimate_homa_ir_steps)

lemma estimate_homa_ir_example: "estimate_homa_ir 20 140 = Inr (7000 / 2187)"
  by (simp add: estimate_homa_ir_scaled)

lemma round_half_even_example: "round_half_even (\<bar>7000 / 2187\<bar> * 100) = 320"
  by (simp add: round_half_even_def Let_def)

lemma digits_of_3: "digits_of 3 = ''3''"
  by (simp add: digits_of.simps [of 3] digit_char_def)

lemma format_2f_example: "format_2f (7000 / 2187) = ''3.20''"
  unfolding format_2f_def Let_def round_half_even_example
  by (simp add: digits_of_3 digit_char_def)

lemma estimate_homa_ir_linear_dose:
  "\<exists>u1 u2. estimate_homa_ir x1 z = Inr u1 \<and> estimate_homa_ir x2 z = Inr u2 \<and>
     estimate_homa_ir (a * x1 + b * x2) z = Inr (a * u1 + b * u2)"
proof (intro exI conjI)
  show "estimate_homa_ir x1 z = Inr (25 * x1 * z / 21870)"
    by (rule estimate_homa_ir_scaled)
  show "estimate_homa_ir x2 z = Inr (25 * x2 * z / 21870)"
    by (rule estimate_homa_ir_scaled)
  show "estimate_homa_ir (a * x1 + b * x2) z =
      Inr (a * (25 * x1 * z / 21870) + b * (25 * x2 * z / 21870))"
    by (simp add: estimate_homa_ir_scaled algebra_simps)
qed

lemma estimate_homa_ir_linear_glucose:
  "\<exists>w1 w2. estimate_homa_ir z x1 = Inr w1 \<and> estimate_homa_ir z x2 = Inr w2 \<and>
     estimate_homa_ir z (a * x1 + b * x2) = Inr (a * w1 + b * w2)"
proof (intro exI conjI)
  show "estimate_homa_ir z x1 = Inr (25 * z * x1 / 21870)"
    by (rule estimate_homa_ir_scaled)
  show "estimate_homa_ir z x2 = Inr (25 * z * x2 / 21870)"
    by (rule estimate_homa_ir_scaled)
  show "estimate_homa_ir z (a * x1 + b * x2) =
      Inr (a * (25 * z * x1 / 21870) + b * (25 * z * x2 / 21870))"
    by (simp add: estimate_homa_ir_scaled algebra_simps)
qed

section \<open>What the function computes on Python's numbers\<close>



subsection \<open>Powers of two\<close>

lemma pow2_powr: "pow2 e = 2 powr (of_int e)"
proof (cases "0 \<le> e")
  case True
  then show ?thesis
    by (simp add: pow2_def powr_realpow [symmetric])
next
  case False
  then have "pow2 e = 1 / 2 powr (real (nat (- e)))"
    by (simp add: pow2_def powr_realpow [symmetric])
  also have "\<dots> = 2 powr (of_int e)"
    using False by (simp add: powr_minus_divide [symmetric])
  finally show ?thesis .
qed

lemma pow2_pos: "0 < pow2 e"
  by (simp add: pow2_powr)

lemma pow2_add: "pow2 (a + b) = pow2 a * pow2 b"
  by (simp add: pow2_powr powr_add)

lemma pow2_diff: "pow2 (a - b) = pow2 a / pow2 b"
  by (simp add: pow2_powr powr_diff)

lemma pow2_le_iff: "pow2 a \<le> pow2 b \<longleftrightarrow> a \<le> b"
  by (simp add: pow2_powr)

lemma pow2_less_iff: "pow2 a < pow2 b \<longleftrightarrow> a < b"
  by (simp add: pow2_powr)

lemma pow2_nat: "0 \<le> e \<Longrightarrow> pow2 e = of_int (2 ^ nat e)"
  by (simp add: pow2_def)

lemma pow2_Suc: "pow2 (e + 1) = 2 * pow2 e"
  by (simp add: pow2_powr powr_add)

lemma pow2_52: "pow2 52 = 2 ^ 52"
  by (simp add: pow2_def)

lemma pow2_53: "pow2 53 = 2 ^ 53"
  by (simp add: pow2_def)

lemma pow2_plus_52: "pow2 (e + 52) = of_int (2 ^ 52) * pow2 e"
  by (simp add: pow2_add pow2_52)

lemma pow2_plus_53: "pow2 (e + 53) = of_int (2 ^ 53) * pow2 e"
  by (simp add: pow2_add pow2_53)

lemma pow2_1024_pos: "\<not> pow2 1024 \<le> 0"
  using pow2_pos [of 1024] by simp

lemma literal_bounds:
  "pow2 2 \<le> 6" "6 \<le> pow2 3" "pow2 9 \<le> 1000" "1000 \<le> pow2 10" "pow2 4 \<le> 24" "24 \<le> pow2 5"
  "pow2 5 \<le> 60" "60 \<le> pow2 6" "pow2 10 \<le> 1500" "1500 \<le> pow2 11" "pow2 8 \<le> 405"
  "405 \<le> pow2 9"
  by (simp_all add: pow2_def)

subsection \<open>Rounding to an integer\<close>

lemma round_half_even_of_int: "round_half_even (of_int n) = n"
  by (simp add: round_half_even_def)

lemma round_half_even_le: "y \<le> of_int N \<Longrightarrow> round_half_even y \<le> N"
  unfolding round_half_even_def Let_def
  by (auto simp: not_less; linarith)

lemma round_half_even_ge: "of_int N \<le> y \<Longrightarrow> N \<le> round_half_even y"
  unfolding round_half_even_def Let_def
  by (auto simp: not_less le_floor_iff; linarith)

subsection \<open>The exponent of the last place\<close>

lemma search_exponent_range:
  "- 1074 \<le> search_exponent n x \<and> search_exponent n x \<le> int n - 1074"
  by (induction n) auto

lemma search_exponent_lower:
  "search_exponent n x \<noteq> - 1074 \<Longrightarrow> pow2 (search_exponent n x + 52) \<le> x"
  by (induction n) (auto split: if_splits)

lemma search_exponent_small: "x < pow2 (- 1021) \<Longrightarrow> search_exponent n x = - 1074"
proof (induction n)
  case 0
  show ?case by simp
next
  case (Suc n)
  have "pow2 (- 1021) \<le> pow2 (int n - 1021)"
    by (simp add: pow2_le_iff)
  with Suc show ?case by simp
qed

lemma search_exponent_upper:
  "search_exponent n x < int n - 1074 \<Longrightarrow> x < pow2 (search_exponent n x + 53)"
proof (induction n)
  case 0
  then show ?case by simp
next
  case (Suc n)
  show ?case
  proof (cases "pow2 (int n - 1021) \<le> x")
    case True
    with Suc.prems show ?thesis by simp
  next
    case False
    then have eq: "search_exponent (Suc n) x = search_exponent n x" by simp
    show ?thesis
    proof (cases "search_exponent n x < int n - 1074")
      case True
      with Suc.IH eq show ?thesis by simp
    next
      case False
      with search_exponent_range [of n x] have "search_exponent n x = int n - 1074"
        by linarith
      then have "pow2 (search_exponent (Suc n) x + 53) = pow2 (int n - 1021)"
        using eq by simp
      with \<open>\<not> pow2 (int n - 1021) \<le> x\<close> show ?thesis
        by (simp only: not_le)
    qed
  qed
qed

lemma search_exponent_unique:
  assumes "pow2 (e + 52) \<le> x" and "x < pow2 (e + 53)" and "- 1074 < e" and "e \<le> int n - 1074"
  shows "search_exponent n x = e"
proof -
  let ?s = "search_exponent n x"
  have up: "?s < int n - 1074 \<Longrightarrow> x < pow2 (?s + 53)"
    by (rule search_exponent_upper)
  have lo: "?s \<noteq> - 1074 \<Longrightarrow> pow2 (?s + 52) \<le> x"
    by (rule search_exponent_lower)
  have ge: "e \<le> ?s"
  proof (rule ccontr)
    assume "\<not> e \<le> ?s"
    then have lt: "?s < e" by simp
    with assms(4) have "?s < int n - 1074" by simp
    from up [OF this] assms(1) have "pow2 (e + 52) < pow2 (?s + 53)" by simp
    then show False using lt by (simp add: pow2_less_iff)
  qed
  have le: "?s \<le> e"
  proof (rule ccontr)
    assume "\<not> ?s \<le> e"
    then have lt: "e < ?s" by simp
    with assms(3) have "?s \<noteq> - 1074" by simp
    from lo [OF this] assms(2) have "pow2 (?s + 52) < pow2 (e + 53)" by simp
    then show False using lt by (simp add: pow2_less_iff)
  qed
  from ge le show ?thesis by simp
qed

lemma ulp_exponent_range: "- 1074 \<le> ulp_exponent x \<and> ulp_exponent x \<le> 971"
  using search_exponent_range [of 2045 x] by (simp add: ulp_exponent_def)

lemma ulp_exponent_lower: "ulp_exponent x \<noteq> - 1074 \<Longrightarrow> pow2 (ulp_exponent x + 52) \<le> x"
  unfolding ulp_exponent_def by (rule search_exponent_lower)

lemma ulp_exponent_upper: "ulp_exponent x < 971 \<Longrightarrow> x < pow2 (ulp_exponent x + 53)"
  using search_exponent_upper [of 2045 x] by (simp add: ulp_exponent_def)

lemma ulp_exponent_small: "x < pow2 (- 1021) \<Longrightarrow> ulp_exponent x = - 1074"
  unfolding ulp_exponent_def by (rule search_exponent_small)

lemma ulp_exponent_unique:
  "pow2 (e + 52) \<le> x \<Longrightarrow> x < pow2 (e + 53) \<Longrightarrow> - 1074 \<le> e \<Longrightarrow> e \<le> 971 \<Longrightarrow>
   ulp_exponent x = e"
proof (cases "e = - 1074")
  case True
  assume "x < pow2 (e + 53)"
  with True have "x < pow2 (- 1021)" by simp
  with True show ?thesis by (simp add: ulp_exponent_small)
next
  case False
  assume "pow2 (e + 52) \<le> x" "x < pow2 (e + 53)" "- 1074 \<le> e" "e \<le> 971"
  with False show ?thesis
    unfolding ulp_exponent_def by (intro search_exponent_unique) simp_all
qed

lemma ulp_exponent_le: "- 1074 \<le> k \<Longrightarrow> x \<le> pow2 k \<Longrightarrow> ulp_exponent x \<le> k"
proof (cases "ulp_exponent x = - 1074")
  case True
  assume "- 1074 \<le> k"
  with True show ?thesis by simp
next
  case False
  assume "x \<le> pow2 k"
  with ulp_exponent_lower [OF False] have "pow2 (ulp_exponent x + 52) \<le> pow2 k" by simp
  then show ?thesis by (simp add: pow2_le_iff)
qed

lemma ulp_exponent_top: "pow2 1023 \<le> x \<Longrightarrow> ulp_exponent x = 971"
proof (rule ccontr)
  assume x: "pow2 1023 \<le> x" and "ulp_exponent x \<noteq> 971"
  with ulp_exponent_range [of x] have lt: "ulp_exponent x < 971"
    by simp
  from ulp_exponent_upper [OF lt] x have "pow2 1023 < pow2 (ulp_exponent x + 53)"
    by simp
  with lt show False
    by (simp add: pow2_less_iff)
qed

lemma ulp_exponent_normal:
  assumes "pow2 (- 1022) \<le> x" and "x \<le> pow2 1022"
  shows "pow2 (ulp_exponent x + 52) \<le> x \<and> x < pow2 (ulp_exponent x + 53) \<and>
    ulp_exponent x \<le> 970"
proof -
  let ?e = "ulp_exponent x"
  have lo: "pow2 (?e + 52) \<le> x"
  proof (cases "?e = - 1074")
    case True
    with assms(1) show ?thesis by simp
  next
    case False
    then show ?thesis by (rule ulp_exponent_lower)
  qed
  with assms(2) have "pow2 (?e + 52) \<le> pow2 1022"
    by simp
  then have le: "?e \<le> 970"
    by (simp add: pow2_le_iff)
  then have "x < pow2 (?e + 53)"
    by (intro ulp_exponent_upper) simp
  with lo le show ?thesis by simp
qed

subsection \<open>Rounding to a float\<close>

lemma round_magnitude_zero: "round_magnitude 0 = 0"
  by (simp add: round_magnitude_def round_half_even_def)

lemma round_magnitude_le:
  assumes "x \<le> pow2 k" and "- 1074 \<le> k"
  shows "round_magnitude x \<le> pow2 k"
proof -
  let ?e = "ulp_exponent x"
  have ek: "?e \<le> k" using assms by (intro ulp_exponent_le)
  then have p: "pow2 (k - ?e) = of_int (2 ^ nat (k - ?e))"
    by (intro pow2_nat) simp
  have "x / pow2 ?e \<le> pow2 k / pow2 ?e"
    using assms(1) pow2_pos [of ?e] by (simp add: divide_right_mono)
  then have "x / pow2 ?e \<le> of_int (2 ^ nat (k - ?e))"
    by (simp add: pow2_diff [symmetric] p)
  then have "round_half_even (x / pow2 ?e) \<le> 2 ^ nat (k - ?e)"
    by (rule round_half_even_le)
  then have "real_of_int (round_half_even (x / pow2 ?e)) \<le> of_int (2 ^ nat (k - ?e))"
    by (simp only: of_int_le_iff)
  then have "of_int (round_half_even (x / pow2 ?e)) * pow2 ?e \<le> pow2 (k - ?e) * pow2 ?e"
    using pow2_pos [of ?e] by (simp add: p)
  also have "\<dots> = pow2 k"
    by (simp add: pow2_add [symmetric])
  finally show ?thesis
    by (simp add: round_magnitude_def Let_def)
qed

lemma round_magnitude_ge:
  assumes "pow2 k \<le> x" and "- 1074 \<le> k"
  shows "pow2 k \<le> round_magnitude x"
proof (cases "ulp_exponent x \<le> k")
  case True
  let ?e = "ulp_exponent x"
  have p: "pow2 (k - ?e) = of_int (2 ^ nat (k - ?e))"
    using True by (intro pow2_nat) simp
  have "pow2 k / pow2 ?e \<le> x / pow2 ?e"
    using assms(1) pow2_pos [of ?e] by (simp add: divide_right_mono)
  then have "of_int (2 ^ nat (k - ?e)) \<le> x / pow2 ?e"
    by (simp add: pow2_diff [symmetric] p)
  then have "2 ^ nat (k - ?e) \<le> round_half_even (x / pow2 ?e)"
    by (rule round_half_even_ge)
  then have "real_of_int (2 ^ nat (k - ?e)) \<le> of_int (round_half_even (x / pow2 ?e))"
    by (simp only: of_int_le_iff)
  then have "pow2 (k - ?e) * pow2 ?e \<le> of_int (round_half_even (x / pow2 ?e)) * pow2 ?e"
    using pow2_pos [of ?e] by (simp add: p)
  moreover have "pow2 (k - ?e) * pow2 ?e = pow2 k"
    by (simp add: pow2_add [symmetric])
  ultimately show ?thesis
    by (simp add: round_magnitude_def Let_def)
next
  case False
  let ?e = "ulp_exponent x"
  from False assms(2) have ne: "?e \<noteq> - 1074" by simp
  have "pow2 ?e \<le> pow2 (?e + 52)"
    by (simp add: pow2_le_iff)
  with ulp_exponent_lower [OF ne] have "pow2 ?e \<le> x"
    by simp
  then have "of_int 1 \<le> x / pow2 ?e"
    using pow2_pos [of ?e] by (simp add: le_divide_eq)
  then have "1 \<le> round_half_even (x / pow2 ?e)"
    by (rule round_half_even_ge)
  then have "real_of_int 1 \<le> of_int (round_half_even (x / pow2 ?e))"
    by (simp only: of_int_le_iff)
  then have "1 * pow2 ?e \<le> of_int (round_half_even (x / pow2 ?e)) * pow2 ?e"
    using pow2_pos [of ?e] by (intro mult_right_mono) simp_all
  moreover have "pow2 k \<le> pow2 ?e"
    using False by (simp add: pow2_le_iff)
  ultimately show ?thesis
    by (simp add: round_magnitude_def Let_def)
qed

lemma round_magnitude_eval:
  "pow2 (e + 52) \<le> x \<Longrightarrow> x < pow2 (e + 53) \<Longrightarrow> - 1074 \<le> e \<Longrightarrow> e \<le> 971 \<Longrightarrow>
   round_magnitude x = of_int (round_half_even (x / pow2 e)) * pow2 e"
  by (simp add: round_magnitude_def ulp_exponent_unique)

lemma round_magnitude_double:
  assumes "pow2 (- 1022) \<le> x" and "x \<le> pow2 1022"
  shows "round_magnitude (2 * x) = 2 * round_magnitude x"
proof -
  let ?e = "ulp_exponent x"
  from ulp_exponent_normal [OF assms]
  have lo: "pow2 (?e + 52) \<le> x" and up: "x < pow2 (?e + 53)" and le: "?e \<le> 970"
    by simp_all
  have ge: "- 1074 \<le> ?e"
    using ulp_exponent_range [of x] by simp
  have "pow2 (?e + 1 + 52) \<le> 2 * x" "2 * x < pow2 (?e + 1 + 53)"
    using lo up pow2_Suc [of "?e + 52"] pow2_Suc [of "?e + 53"]
    by (simp_all add: algebra_simps)
  then have "ulp_exponent (2 * x) = ?e + 1"
    using ge le by (intro ulp_exponent_unique) simp_all
  then show ?thesis
    by (simp add: round_magnitude_def Let_def pow2_Suc)
qed

lemma round_magnitude_idem:
  assumes "pow2 (- 1022) \<le> x" and "x \<le> pow2 1022"
  shows "round_magnitude (round_magnitude x) = round_magnitude x"
proof -
  let ?e = "ulp_exponent x"
  let ?M = "round_half_even (x / pow2 ?e)"
  from ulp_exponent_normal [OF assms]
  have lo: "pow2 (?e + 52) \<le> x" and up: "x < pow2 (?e + 53)" and le: "?e \<le> 970"
    by simp_all
  have ge: "- 1074 \<le> ?e"
    using ulp_exponent_range [of x] by simp
  have r: "round_magnitude x = of_int ?M * pow2 ?e"
    by (simp add: round_magnitude_def Let_def)
  note p52 = pow2_plus_52 [of ?e]
  note p53 = pow2_plus_53 [of ?e]
  have "of_int (2 ^ 52) \<le> x / pow2 ?e"
    using lo pow2_pos [of ?e] by (simp add: p52 le_divide_eq)
  then have M_lo: "2 ^ 52 \<le> ?M"
    by (rule round_half_even_ge)
  have "x / pow2 ?e \<le> of_int (2 ^ 53)"
    using up pow2_pos [of ?e] by (simp add: p53 divide_le_eq)
  then have M_hi: "?M \<le> 2 ^ 53"
    by (rule round_half_even_le)
  show ?thesis
  proof (cases "?M = 2 ^ 53")
    case True
    then have rv: "round_magnitude x = pow2 (?e + 53)"
      by (simp add: r p53)
    have "ulp_exponent (pow2 (?e + 53)) = ?e + 1"
      using ge le by (intro ulp_exponent_unique) (simp_all add: pow2_le_iff pow2_less_iff)
    moreover have "pow2 (?e + 53) / pow2 (?e + 1) = of_int (2 ^ 52)"
      by (simp add: pow2_diff [symmetric] pow2_52)
    moreover have "of_int (2 ^ 52) * pow2 (?e + 1) = pow2 (?e + 53)"
      using pow2_plus_52 [of "?e + 1"] by (simp add: add.commute)
    ultimately have "round_magnitude (pow2 (?e + 53)) = pow2 (?e + 53)"
      unfolding round_magnitude_def Let_def
      by (simp only: round_half_even_of_int)
    with rv show ?thesis by simp
  next
    case False
    with M_hi have "?M < 2 ^ 53" by simp
    then have "real_of_int ?M < of_int (2 ^ 53)"
      by (simp only: of_int_less_iff)
    then have r_up: "round_magnitude x < pow2 (?e + 53)"
      using pow2_pos [of ?e] by (simp add: r p53)
    from M_lo have "real_of_int (2 ^ 52) \<le> of_int ?M"
      by (simp only: of_int_le_iff)
    then have r_lo: "pow2 (?e + 52) \<le> round_magnitude x"
      using pow2_pos [of ?e] by (simp add: r p52)
    from r_lo r_up ge le have "ulp_exponent (round_magnitude x) = ?e"
      by (intro ulp_exponent_unique) simp_all
    moreover have "round_magnitude x / pow2 ?e = of_int ?M"
      using pow2_pos [of ?e] by (simp add: r)
    ultimately have "round_magnitude (round_magnitude x) = of_int ?M * pow2 ?e"
      unfolding round_magnitude_def [of "round_magnitude x"] Let_def
      by (simp only: round_half_even_of_int)
    with r show ?thesis by simp
  qed
qed

lemma pack_zero: "pack s 0 = Finite s 0"
  by (simp add: pack_def round_magnitude_zero pow2_1024_pos)

lemma pack_neg: "float_neg (pack s x) = pack (\<not> s) x"
  by (simp add: pack_def Let_def)

lemma pack_bounded:
  assumes "x \<le> pow2 k" and "- 1074 \<le> k" and "k \<le> 1023"
  shows "\<exists>m. pack s x = Finite s m \<and> m \<le> pow2 k"
proof -
  have "round_magnitude x \<le> pow2 k"
    using assms(1,2) by (rule round_magnitude_le)
  moreover have "pow2 k < pow2 1024"
    using assms(3) by (simp add: pow2_less_iff)
  ultimately show ?thesis
    by (simp add: pack_def Let_def)
qed

lemma pack_eval:
  assumes "pow2 (e + 52) \<le> x" and "x < pow2 (e + 53)" and "- 1074 \<le> e" and "e \<le> 970"
  shows "pack s x = Finite s (of_int (round_half_even (x / pow2 e)) * pow2 e)"
proof -
  have "round_magnitude x \<le> pow2 (e + 53)"
    using assms by (intro round_magnitude_le) simp_all
  moreover have "pow2 (e + 53) < pow2 1024"
    using assms(4) by (simp add: pow2_less_iff)
  ultimately have "\<not> pow2 1024 \<le> round_magnitude x"
    by simp
  moreover have "round_magnitude x = of_int (round_half_even (x / pow2 e)) * pow2 e"
    using assms by (intro round_magnitude_eval) simp_all
  ultimately show ?thesis
    by (simp add: pack_def)
qed

lemma pack_overflow: "pow2 1024 \<le> x \<Longrightarrow> pack s x = Infinity s"
  using round_magnitude_ge [of 1024 x] by (simp add: pack_def)

lemma pack_eval_top:
  assumes "pow2 1023 \<le> x"
    and "of_int (round_half_even (x / pow2 971)) * pow2 971 < pow2 1024"
  shows "pack s x = Finite s (of_int (round_half_even (x / pow2 971)) * pow2 971)"
  using assms by (simp add: pack_def round_magnitude_def ulp_exponent_top)

lemma pack_subnormal:
  assumes "x < pow2 (- 1021)"
  shows "pack s x = Finite s (of_int (round_half_even (x / pow2 (- 1074))) * pow2 (- 1074))"
proof -
  have "round_magnitude x \<le> pow2 (- 1021)"
    using assms by (intro round_magnitude_le) simp_all
  moreover have "pow2 (- 1021) < pow2 1024"
    by (simp add: pow2_less_iff)
  ultimately have "\<not> pow2 1024 \<le> round_magnitude x"
    by simp
  then show ?thesis
    using assms by (simp add: pack_def round_magnitude_def ulp_exponent_small)
qed

lemma pack_normal:
  assumes "pow2 lo \<le> x" and "x \<le> pow2 hi" and "- 1022 \<le> lo" and "hi \<le> 1022"
  shows "pack s x = Finite s (round_magnitude x) \<and>
    pack s (2 * x) = Finite s (2 * round_magnitude x) \<and>
    round_magnitude (round_magnitude x) = round_magnitude x \<and>
    pow2 lo \<le> round_magnitude x \<and> round_magnitude x \<le> pow2 hi"
proof -
  have n1: "pow2 (- 1022) \<le> x"
    using assms(1,3) pow2_le_iff [of "- 1022" lo] by simp
  have n2: "x \<le> pow2 1022"
    using assms(2,4) pow2_le_iff [of hi 1022] by simp
  have lo: "pow2 lo \<le> round_magnitude x"
    using assms(1,3) by (intro round_magnitude_ge) simp_all
  have hi: "round_magnitude x \<le> pow2 hi"
    using assms(2,3) assms(1) pow2_le_iff [of lo hi] by (intro round_magnitude_le) simp_all
  have "pow2 hi < pow2 1024" "pow2 (hi + 1) < pow2 1024"
    using assms(4) by (simp_all add: pow2_less_iff)
  moreover have "2 * round_magnitude x \<le> pow2 (hi + 1)"
    using hi by (simp add: pow2_Suc)
  ultimately have "\<not> pow2 1024 \<le> round_magnitude x" "\<not> pow2 1024 \<le> 2 * round_magnitude x"
    using hi by simp_all
  then show ?thesis
    using lo hi round_magnitude_double [OF n1 n2] round_magnitude_idem [OF n1 n2]
    by (simp add: pack_def)
qed

subsection \<open>The literals\<close>

lemma round_magnitude_24: "round_magnitude 24 = 24"
  by (simp add: round_magnitude_eval [of "- 48"] pow2_def round_half_even_def)

lemma round_magnitude_6: "round_magnitude 6 = 6"
  by (simp add: round_magnitude_eval [of "- 50"] pow2_def round_half_even_def)

lemma round_magnitude_1000: "round_magnitude 1000 = 1000"
  by (simp add: round_magnitude_eval [of "- 43"] pow2_def round_half_even_def)

lemma round_magnitude_60: "round_magnitude 60 = 60"
  by (simp add: round_magnitude_eval [of "- 47"] pow2_def round_half_even_def)

lemma round_magnitude_1500: "round_magnitude 1500 = 1500"
  by (simp add: round_magnitude_eval [of "- 42"] pow2_def round_half_even_def)

lemma round_magnitude_405: "round_magnitude 405 = 405"
  by (simp add: round_magnitude_eval [of "- 44"] pow2_def round_half_even_def)

lemma round_magnitude_2: "round_magnitude 2 = 2"
  by (simp add: round_magnitude_eval [of "- 51"] pow2_def round_half_even_def)

lemmas round_magnitude_literals =
  round_magnitude_24 round_magnitude_6 round_magnitude_1000 round_magnitude_60
  round_magnitude_1500 round_magnitude_405 round_magnitude_2

lemma pow2_1024_gt: "\<not> pow2 1024 \<le> 24" "\<not> pow2 1024 \<le> 6" "\<not> pow2 1024 \<le> 1000"
  "\<not> pow2 1024 \<le> 60" "\<not> pow2 1024 \<le> 1500" "\<not> pow2 1024 \<le> 405" "\<not> pow2 1024 \<le> 2"
  by (simp_all add: pow2_def)

lemma float_of_int_literals:
  "float_of_int 24 = Inr (Finite False 24)"
  "float_of_int 6 = Inr (Finite False 6)"
  "float_of_int 1000 = Inr (Finite False 1000)"
  "float_of_int 60 = Inr (Finite False 60)"
  "float_of_int 1500 = Inr (Finite False 1500)"
  "float_of_int 405 = Inr (Finite False 405)"
  "float_of_int 2 = Inr (Finite False 2)"
  by (simp_all add: float_of_int_def round_magnitude_literals pow2_1024_gt)

lemma py_truediv_literals:
  "py_truediv (PyFloat x) (PyInt 24) = Inr (PyFloat (float_quotient x (Finite False 24)))"
  "py_truediv (PyFloat x) (PyInt 60) = Inr (PyFloat (float_quotient x (Finite False 60)))"
  "py_truediv (PyFloat x) (PyInt 1500) = Inr (PyFloat (float_quotient x (Finite False 1500)))"
  "py_truediv (PyFloat x) (PyInt 6) = Inr (PyFloat (float_quotient x (Finite False 6)))"
  "py_truediv (PyFloat x) (PyInt 405) = Inr (PyFloat (float_quotient x (Finite False 405)))"
  by (simp_all add: float_of_int_literals bind_result_Inr float_div_def)

lemma py_mul_literals:
  "py_mul (PyFloat x) (PyInt 6) = Inr (PyFloat (float_mul x (Finite False 6)))"
  "py_mul (PyFloat x) (PyInt 1000) = Inr (PyFloat (float_mul x (Finite False 1000)))"
  "py_mul (PyInt 2) (PyFloat x) = Inr (PyFloat (float_mul (Finite False 2) x))"
  by (simp_all add: float_of_int_literals bind_result_Inr)

lemma py_mul_float_any:
  "py_mul (PyFloat x) g = bind_result (to_float g) (\<lambda>y. Inr (PyFloat (float_mul x y)))"
  by (cases g) (simp_all add: bind_result_Inr)

subsection \<open>The function as a chain of float operations\<close>

lemma estimate_homa_ir_float_chain:
  assumes "py_truediv d (PyInt 24) = Inr (PyFloat x)"
  shows "estimate_homa_ir_float d g =
    bind_result (to_float g) (\<lambda>y. Inr (PyFloat
      (float_quotient
        (float_mul
          (float_quotient
            (float_mul
              (float_quotient
                (float_quotient
                  (float_mul (float_mul x (Finite False 6)) (Finite False 1000))
                  (Finite False 60))
                (Finite False 1500))
              (Finite False 1000))
            (Finite False 6))
          y)
        (Finite False 405))))"
  unfolding estimate_homa_ir_float_def Let_def assms
  by (simp only: bind_result_Inr py_mul_literals py_truediv_literals)
    (cases "to_float g";
      simp only: py_mul_float_any bind_result_Inr bind_result_Inl py_truediv_literals)

lemma estimate_homa_ir_float_first_error:
  "py_truediv d (PyInt 24) = Inl e \<Longrightarrow> estimate_homa_ir_float d g = Inl e"
  by (simp add: estimate_homa_ir_float_def bind_result_Inl)

lemma py_truediv_24_float:
  "py_truediv (PyFloat x) (PyInt 24) = Inr (PyFloat (float_quotient x (Finite False 24)))"
  by (rule py_truediv_literals)

lemma py_truediv_24_int:
  "py_truediv (PyInt i) (PyInt 24) =
     (if pow2 1024 \<le> round_magnitude (\<bar>of_int i\<bar> / 24) then Inl OverflowError
      else Inr (PyFloat (Finite (i < 0) (round_magnitude (\<bar>of_int i\<bar> / 24)))))"
  by (simp add: Let_def)

lemma py_truediv_24_cases:
  "py_truediv d (PyInt 24) = Inl OverflowError \<or> (\<exists>x. py_truediv d (PyInt 24) = Inr (PyFloat x))"
  by (cases d) (simp_all add: py_truediv_24_float py_truediv_24_int del: py_truediv.simps)

lemma to_float_cases: "to_float g = Inl OverflowError \<or> (\<exists>y. to_float g = Inr y)"
  by (cases g) (simp_all add: float_of_int_def Let_def)

lemma estimate_homa_ir_float_cases:
  "estimate_homa_ir_float d g = Inl OverflowError \<or>
   (\<exists>v. estimate_homa_ir_float d g = Inr (PyFloat v))"
proof -
  from py_truediv_24_cases [of d] show ?thesis
  proof
    assume "py_truediv d (PyInt 24) = Inl OverflowError"
    then show ?thesis by (simp add: estimate_homa_ir_float_first_error)
  next
    assume "\<exists>x. py_truediv d (PyInt 24) = Inr (PyFloat x)"
    then obtain x where x: "py_truediv d (PyInt 24) = Inr (PyFloat x)" ..
    from to_float_cases [of g] show ?thesis
    proof
      assume "to_float g = Inl OverflowError"
      then show ?thesis
        by (simp add: estimate_homa_ir_float_chain [OF x] bind_result_Inl)
    next
      assume "\<exists>y. to_float g = Inr y"
      then obtain y where "to_float g = Inr y" ..
      then show ?thesis
        by (simp add: estimate_homa_ir_float_chain [OF x] bind_result_Inr)
    qed
  qed
qed

lemma to_float_PyInt_0: "to_float (PyInt 0) = Inr (Finite False 0)"
  by (simp add: float_of_int_def round_magnitude_zero pow2_1024_pos)

lemma py_truediv_24_PyInt_0: "py_truediv (PyInt 0) (PyInt 24) = Inr (PyFloat (Finite False 0))"
  by (simp add: py_truediv_24_int round_magnitude_zero pow2_1024_pos del: py_truediv.simps)

subsection \<open>Magnitudes that stay in range\<close>

lemma float_mul_bounded:
  assumes "m \<le> pow2 k" and "0 < c" and "c \<le> pow2 j" and "- 1074 \<le> k + j" and "k + j \<le> 1023"
  shows "\<exists>m'. float_mul (Finite s m) (Finite False c) = Finite s m' \<and> m' \<le> pow2 (k + j)"
proof -
  have "m * c \<le> pow2 k * pow2 j"
  proof (cases "0 \<le> m")
    case True
    with assms(1-3) show ?thesis
      by (intro mult_mono) (simp_all add: less_imp_le [OF pow2_pos])
  next
    case False
    with assms(2) have "m * c \<le> 0"
      by (simp add: mult_le_0_iff)
    also have "0 \<le> pow2 k * pow2 j"
      using pow2_pos [of k] pow2_pos [of j] by simp
    finally show ?thesis .
  qed
  then have "m * c \<le> pow2 (k + j)"
    by (simp add: pow2_add)
  from pack_bounded [OF this assms(4,5), of s] show ?thesis
    by simp
qed

lemma float_quotient_bounded:
  assumes "m \<le> pow2 k" and "1 \<le> c" and "- 1074 \<le> k" and "k \<le> 1023"
  shows "\<exists>m'. float_quotient (Finite s m) (Finite False c) = Finite s m' \<and> m' \<le> pow2 k"
proof -
  have "m / c \<le> pow2 k"
  proof (cases "0 \<le> m")
    case True
    with assms(2) have "m / c \<le> m"
      by (simp add: divide_le_eq mult_le_cancel_left1)
    with assms(1) show ?thesis by simp
  next
    case False
    with assms(2) have "m / c \<le> 0"
      by (simp add: divide_le_0_iff)
    also have "0 \<le> pow2 k"
      using pow2_pos [of k] by simp
    finally show ?thesis .
  qed
  from pack_bounded [OF this assms(3,4), of s] show ?thesis
    by simp
qed

lemma pow2_small: "(6::real) \<le> pow2 3" "(1000::real) \<le> pow2 10"
  by (simp_all add: pow2_def)

lemma fasting_insulin_bounded:
  assumes "m \<le> pow2 1000"
  shows "\<exists>s' m'.
    float_quotient
      (float_mul
        (float_quotient
          (float_quotient
            (float_mul (float_mul (Finite s m) (Finite False 6)) (Finite False 1000))
            (Finite False 60))
          (Finite False 1500))
        (Finite False 1000))
      (Finite False 6) = Finite s' m'"
proof -
  from float_mul_bounded [OF assms, of 6 3 s] pow2_small
  obtain m2 where 2: "float_mul (Finite s m) (Finite False 6) = Finite s m2" "m2 \<le> pow2 1003"
    by auto
  from float_mul_bounded [OF 2(2), of 1000 10 s] pow2_small
  obtain m3 where 3: "float_mul (Finite s m2) (Finite False 1000) = Finite s m3" "m3 \<le> pow2 1013"
    by auto
  from float_quotient_bounded [OF 3(2), of 60 s]
  obtain m4 where 4: "float_quotient (Finite s m3) (Finite False 60) = Finite s m4" "m4 \<le> pow2 1013"
    by auto
  from float_quotient_bounded [OF 4(2), of 1500 s]
  obtain m5 where 5: "float_quotient (Finite s m4) (Finite False 1500) = Finite s m5" "m5 \<le> pow2 1013"
    by auto
  from float_mul_bounded [OF 5(2), of 1000 10 s] pow2_small
  obtain m6 where 6: "float_mul (Finite s m5) (Finite False 1000) = Finite s m6" "m6 \<le> pow2 1023"
    by auto
  from float_quotient_bounded [OF 6(2), of 6 s]
  obtain m7 where 7: "float_quotient (Finite s m6) (Finite False 6) = Finite s m7" "m7 \<le> pow2 1023"
    by auto
  show ?thesis
    by (simp only: 2 3 4 5 6 7) blast
qed

lemma py_truediv_24_bounded:
  assumes "py_abs_le d (pow2 1000)"
  shows "\<exists>s m. py_truediv d (PyInt 24) = Inr (PyFloat (Finite s m)) \<and> m \<le> pow2 1000"
proof (cases d)
  case (PyInt i)
  with assms have "\<bar>real_of_int i\<bar> / 24 \<le> pow2 1000"
    by simp
  then have "round_magnitude (\<bar>real_of_int i\<bar> / 24) \<le> pow2 1000"
    by (rule round_magnitude_le) simp
  moreover have "pow2 1000 < pow2 1024"
    by (simp add: pow2_less_iff)
  ultimately show ?thesis
    using PyInt by (simp add: py_truediv_24_int del: py_truediv.simps)
next
  case (PyFloat x)
  with assms obtain s m where x: "x = Finite s m" and m: "m \<le> pow2 1000"
    by (cases x) auto
  from float_quotient_bounded [OF m, of 24 s] show ?thesis
    using PyFloat x by (auto simp: py_truediv_24_float simp del: py_truediv.simps)
qed

lemma to_float_zero: "py_is_zero g \<Longrightarrow> \<exists>t. to_float g = Inr (Finite t 0)"
proof (cases g)
  case (PyInt i)
  assume "py_is_zero g"
  with PyInt show ?thesis
    by (auto simp: float_of_int_def round_magnitude_zero pow2_1024_pos)
next
  case (PyFloat x)
  assume "py_is_zero g"
  with PyFloat show ?thesis
    by (cases x) auto
qed

subsection \<open>Negation\<close>

lemma float_mul_neg_left: "float_mul (float_neg x) y = float_neg (float_mul x y)"
  by (cases x; cases y) (auto simp: pack_neg)

lemma float_mul_neg_right: "float_mul x (float_neg y) = float_neg (float_mul x y)"
  by (cases x; cases y) (auto simp: pack_neg)

lemma float_quotient_neg_left: "float_quotient (float_neg x) y = float_neg (float_quotient x y)"
  by (cases x; cases y) (auto simp: pack_neg)

lemma py_truediv_24_neg:
  assumes "d \<noteq> PyInt 0" and "py_truediv d (PyInt 24) = Inr (PyFloat x)"
  shows "py_truediv (py_neg d) (PyInt 24) = Inr (PyFloat (float_neg x))"
proof (cases d)
  case (PyInt i)
  with assms(1) have "i \<noteq> 0" by simp
  then have "(- i < 0) = (\<not> i < 0)" by auto
  with assms(2) PyInt show ?thesis
    by (auto simp: py_truediv_24_int simp del: py_truediv.simps split: if_splits)
next
  case (PyFloat a)
  with assms(2) show ?thesis
    by (simp add: py_truediv_24_float float_quotient_neg_left del: py_truediv.simps)
qed

lemma to_float_neg:
  assumes "g \<noteq> PyInt 0" and "to_float g = Inr y"
  shows "to_float (py_neg g) = Inr (float_neg y)"
proof (cases g)
  case (PyInt j)
  with assms(1) have "j \<noteq> 0" by simp
  then have "(- j < 0) = (\<not> j < 0)" by auto
  with assms(2) PyInt show ?thesis
    by (auto simp: float_of_int_def Let_def split: if_splits)
next
  case (PyFloat b)
  with assms(2) show ?thesis by simp
qed

lemma zero_times_not_nan:
  assumes "float_quotient (float_mul (Finite s 0) y) (Finite False 405) \<noteq> NaN"
  shows "\<exists>t. float_quotient (float_mul (Finite s 0) y) (Finite False 405) = Finite t 0"
  using assms by (cases y) (simp_all add: pack_zero)

lemma times_zero_not_nan:
  assumes "float_quotient (float_mul f (Finite t 0)) (Finite False 405) \<noteq> NaN"
  shows "\<exists>s. float_quotient (float_mul f (Finite t 0)) (Finite False 405) = Finite s 0"
  using assms by (cases f) (simp_all add: pack_zero)

lemma estimate_homa_ir_float_neg_dose:
  assumes "d \<noteq> PyInt 0" and "estimate_homa_ir_float d g = Inr (PyFloat v)"
  shows "estimate_homa_ir_float (py_neg d) g = Inr (PyFloat (float_neg v))"
proof -
  from py_truediv_24_cases [of d] assms(2)
  obtain x where x: "py_truediv d (PyInt 24) = Inr (PyFloat x)"
    by (auto simp: estimate_homa_ir_float_first_error)
  from to_float_cases [of g] assms(2)
  obtain y where y: "to_float g = Inr y"
    by (auto simp: estimate_homa_ir_float_chain [OF x] bind_result_Inl)
  from assms(2) show ?thesis
    by (simp add: estimate_homa_ir_float_chain [OF x]
        estimate_homa_ir_float_chain [OF py_truediv_24_neg [OF assms(1) x]] y bind_result_Inr
        float_mul_neg_left float_quotient_neg_left del: float_mul.simps float_quotient.simps)
qed

lemma estimate_homa_ir_float_neg_glucose:
  assumes "g \<noteq> PyInt 0" and "estimate_homa_ir_float d g = Inr (PyFloat v)"
  shows "estimate_homa_ir_float d (py_neg g) = Inr (PyFloat (float_neg v))"
proof -
  from py_truediv_24_cases [of d] assms(2)
  obtain x where x: "py_truediv d (PyInt 24) = Inr (PyFloat x)"
    by (auto simp: estimate_homa_ir_float_first_error)
  from to_float_cases [of g] assms(2)
  obtain y where y: "to_float g = Inr y"
    by (auto simp: estimate_homa_ir_float_chain [OF x] bind_result_Inl)
  from assms(2) show ?thesis
    by (simp add: estimate_homa_ir_float_chain [OF x] y to_float_neg [OF assms(1) y]
        bind_result_Inr float_mul_neg_right float_quotient_neg_left
        del: float_mul.simps float_quotient.simps)
qed

lemma estimate_homa_ir_float_zero_dose:
  assumes "estimate_homa_ir_float (PyInt 0) g = Inr (PyFloat v)" and "v \<noteq> NaN"
  shows "\<exists>s. v = Finite s 0"
proof -
  note x = py_truediv_24_PyInt_0
  from to_float_cases [of g] assms(1)
  obtain y where y: "to_float g = Inr y"
    by (auto simp: estimate_homa_ir_float_chain [OF x] bind_result_Inl)
  from assms(1) have "v = float_quotient (float_mul (Finite False 0) y) (Finite False 405)"
    by (simp add: estimate_homa_ir_float_chain [OF x] y bind_result_Inr pack_zero)
  with assms(2) zero_times_not_nan [of False y] show ?thesis
    by simp
qed

lemma estimate_homa_ir_float_zero_glucose_value:
  assumes "estimate_homa_ir_float d (PyInt 0) = Inr (PyFloat v)" and "v \<noteq> NaN"
  shows "\<exists>s. v = Finite s 0"
proof -
  from py_truediv_24_cases [of d] assms(1)
  obtain x where x: "py_truediv d (PyInt 24) = Inr (PyFloat x)"
    by (auto simp: estimate_homa_ir_float_first_error)
  let ?f = "float_quotient (float_mul (float_quotient (float_quotient
      (float_mul (float_mul x (Finite False 6)) (Finite False 1000))
      (Finite False 60)) (Finite False 1500)) (Finite False 1000)) (Finite False 6)"
  from assms(1) have "v = float_quotient (float_mul ?f (Finite False 0)) (Finite False 405)"
    by (simp add: estimate_homa_ir_float_chain [OF x] to_float_PyInt_0 bind_result_Inr
        del: float_mul.simps float_quotient.simps to_float.simps)
  with assms(2) times_zero_not_nan [of ?f False] show ?thesis
    by simp
qed

subsection \<open>Doubling\<close>

lemma float_mul_normal:
  assumes "pow2 lo \<le> m" and "m \<le> pow2 hi" and "pow2 lo' \<le> n" and "n \<le> pow2 hi'"
    and "- 1022 \<le> lo + lo'" and "hi + hi' \<le> 1022"
  shows "\<exists>r. float_mul (Finite s m) (Finite t n) = Finite (s \<noteq> t) r \<and>
    float_mul (Finite s (2 * m)) (Finite t n) = Finite (s \<noteq> t) (2 * r) \<and>
    float_mul (Finite s m) (Finite t (2 * n)) = Finite (s \<noteq> t) (2 * r) \<and>
    round_magnitude r = r \<and> pow2 (lo + lo') \<le> r \<and> r \<le> pow2 (hi + hi')"
proof -
  have m0: "0 \<le> m" and n0: "0 \<le> n"
    using assms(1,3) pow2_pos [of lo] pow2_pos [of lo'] by simp_all
  have "pow2 lo * pow2 lo' \<le> m * n"
    using assms(1,3) pow2_pos [of lo] pow2_pos [of lo'] by (intro mult_mono) simp_all
  then have 1: "pow2 (lo + lo') \<le> m * n"
    by (simp add: pow2_add)
  have "m * n \<le> pow2 hi * pow2 hi'"
    using assms(2,4) m0 n0 pow2_pos [of hi] by (intro mult_mono) simp_all
  then have 2: "m * n \<le> pow2 (hi + hi')"
    by (simp add: pow2_add)
  from pack_normal [OF 1 2 assms(5,6), of "s \<noteq> t"] show ?thesis
    by (simp add: mult.assoc mult.left_commute)
qed

lemma float_quotient_normal:
  assumes "pow2 lo \<le> m" and "m \<le> pow2 hi" and "pow2 lo' \<le> n" and "n \<le> pow2 hi'"
    and "- 1022 \<le> lo - hi'" and "hi - lo' \<le> 1022"
  shows "\<exists>r. float_quotient (Finite s m) (Finite t n) = Finite (s \<noteq> t) r \<and>
    float_quotient (Finite s (2 * m)) (Finite t n) = Finite (s \<noteq> t) (2 * r) \<and>
    round_magnitude r = r \<and> pow2 (lo - hi') \<le> r \<and> r \<le> pow2 (hi - lo')"
proof -
  have m0: "0 \<le> m" and n0: "0 < n"
    using assms(1,3) pow2_pos [of lo] pow2_pos [of lo'] by simp_all
  have "pow2 lo / pow2 hi' \<le> m / n"
    using assms(1,4) n0 pow2_pos [of lo] by (intro frac_le) simp_all
  then have 1: "pow2 (lo - hi') \<le> m / n"
    by (simp add: pow2_diff)
  have "m / n \<le> pow2 hi / pow2 lo'"
    using assms(2,3) m0 pow2_pos [of lo'] by (intro frac_le) simp_all
  then have 2: "m / n \<le> pow2 (hi - lo')"
    by (simp add: pow2_diff)
  from pack_normal [OF 1 2 assms(5,6), of "s \<noteq> t"] show ?thesis
    by simp
qed

lemma fasting_insulin_normal:
  assumes "pow2 (- 405) \<le> r" and "r \<le> pow2 400"
  shows "\<exists>f.
    float_quotient (float_mul (float_quotient (float_quotient
      (float_mul (float_mul (Finite s r) (Finite False 6)) (Finite False 1000))
      (Finite False 60)) (Finite False 1500)) (Finite False 1000)) (Finite False 6) = Finite s f \<and>
    float_quotient (float_mul (float_quotient (float_quotient
      (float_mul (float_mul (Finite s (2 * r)) (Finite False 6)) (Finite False 1000))
      (Finite False 60)) (Finite False 1500)) (Finite False 1000)) (Finite False 6) =
      Finite s (2 * f) \<and>
    pow2 (- 405) \<le> f \<and> f \<le> pow2 406"
proof -
  from float_mul_normal [OF assms literal_bounds(1,2), of s False]
  obtain r2 where 2: "float_mul (Finite s r) (Finite False 6) = Finite s r2"
    "float_mul (Finite s (2 * r)) (Finite False 6) = Finite s (2 * r2)"
    "pow2 (- 403) \<le> r2" "r2 \<le> pow2 403"
    by auto
  from float_mul_normal [OF 2(3,4) literal_bounds(3,4), of s False]
  obtain r3 where 3: "float_mul (Finite s r2) (Finite False 1000) = Finite s r3"
    "float_mul (Finite s (2 * r2)) (Finite False 1000) = Finite s (2 * r3)"
    "pow2 (- 394) \<le> r3" "r3 \<le> pow2 413"
    by auto
  from float_quotient_normal [OF 3(3,4) literal_bounds(7,8), of s False]
  obtain r4 where 4: "float_quotient (Finite s r3) (Finite False 60) = Finite s r4"
    "float_quotient (Finite s (2 * r3)) (Finite False 60) = Finite s (2 * r4)"
    "pow2 (- 400) \<le> r4" "r4 \<le> pow2 408"
    by auto
  from float_quotient_normal [OF 4(3,4) literal_bounds(9,10), of s False]
  obtain r5 where 5: "float_quotient (Finite s r4) (Finite False 1500) = Finite s r5"
    "float_quotient (Finite s (2 * r4)) (Finite False 1500) = Finite s (2 * r5)"
    "pow2 (- 411) \<le> r5" "r5 \<le> pow2 398"
    by auto
  from float_mul_normal [OF 5(3,4) literal_bounds(3,4), of s False]
  obtain r6 where 6: "float_mul (Finite s r5) (Finite False 1000) = Finite s r6"
    "float_mul (Finite s (2 * r5)) (Finite False 1000) = Finite s (2 * r6)"
    "pow2 (- 402) \<le> r6" "r6 \<le> pow2 408"
    by auto
  from float_quotient_normal [OF 6(3,4) literal_bounds(1,2), of s False]
  obtain r7 where 7: "float_quotient (Finite s r6) (Finite False 6) = Finite s r7"
    "float_quotient (Finite s (2 * r6)) (Finite False 6) = Finite s (2 * r7)"
    "pow2 (- 405) \<le> r7" "r7 \<le> pow2 406"
    by auto
  show ?thesis
    by (simp only: 2 3 4 5 6 7) (use 7 in blast)
qed

lemma py_double_float:
  assumes "round_magnitude m = m" and "pow2 lo \<le> m" and "m \<le> pow2 hi"
    and "- 1022 \<le> lo" and "hi \<le> 1022"
  shows "py_mul (PyInt 2) (PyFloat (Finite s m)) = Inr (PyFloat (Finite s (2 * m)))"
proof -
  from pack_normal [OF assms(2,3,4,5), of s] assms(1)
  have "pack s (2 * m) = Finite s (2 * m)"
    by simp
  then show ?thesis
    by (simp add: py_mul_literals del: py_mul.simps)
qed

lemma to_float_double:
  assumes "py_magnitude_in g lo hi" and "- 1022 \<le> lo" and "hi \<le> 1022"
  shows "\<exists>t n g2. to_float g = Inr (Finite t n) \<and> py_mul (PyInt 2) g = Inr g2 \<and>
    to_float g2 = Inr (Finite t (2 * n)) \<and> pow2 lo \<le> n \<and> n \<le> pow2 hi"
proof (cases g)
  case (PyInt j)
  with assms(1) have b: "pow2 lo \<le> \<bar>real_of_int j\<bar>" "\<bar>real_of_int j\<bar> \<le> pow2 hi"
    by simp_all
  from pack_normal [OF b assms(2,3), of "j < 0"]
  have "float_of_int j = Inr (Finite (j < 0) (round_magnitude \<bar>real_of_int j\<bar>))"
    and "float_of_int (2 * j) = Inr (Finite (j < 0) (2 * round_magnitude \<bar>real_of_int j\<bar>))"
    and "pow2 lo \<le> round_magnitude \<bar>real_of_int j\<bar>"
    and "round_magnitude \<bar>real_of_int j\<bar> \<le> pow2 hi"
    by (simp_all add: float_of_int_def pack_def Let_def abs_mult split: if_splits)
  with PyInt show ?thesis
    by simp
next
  case (PyFloat x)
  with assms(1) obtain t n where x: "x = Finite t n"
    and n: "round_magnitude n = n" "pow2 lo \<le> n" "n \<le> pow2 hi"
    by (cases x) auto
  from py_double_float [OF n assms(2,3), of t] PyFloat x n show ?thesis
    by simp
qed

lemma py_truediv_24_double:
  assumes "py_magnitude_in d (- 400) 400"
  shows "\<exists>s r d2. py_truediv d (PyInt 24) = Inr (PyFloat (Finite s r)) \<and>
    py_mul (PyInt 2) d = Inr d2 \<and>
    py_truediv d2 (PyInt 24) = Inr (PyFloat (Finite s (2 * r))) \<and>
    pow2 (- 405) \<le> r \<and> r \<le> pow2 400"
proof (cases d)
  case (PyInt i)
  with assms have b: "pow2 (- 400) \<le> \<bar>real_of_int i\<bar>" "\<bar>real_of_int i\<bar> \<le> pow2 400"
    by simp_all
  from b(1) pow2_pos [of "- 400"] have "i \<noteq> 0"
    by auto
  then have "1 \<le> \<bar>real_of_int i\<bar>"
    by (simp add: of_int_abs [symmetric] del: of_int_abs)
  then have 1: "pow2 (- 5) \<le> \<bar>real_of_int i\<bar> / 24"
    by (simp add: pow2_def)
  have 2: "\<bar>real_of_int i\<bar> / 24 \<le> pow2 400"
    using b(2) by simp
  from pack_normal [OF 1 2, of "i < 0"]
  have "py_truediv (PyInt i) (PyInt 24) =
      Inr (PyFloat (Finite (i < 0) (round_magnitude (\<bar>real_of_int i\<bar> / 24))))"
    and "py_truediv (PyInt (2 * i)) (PyInt 24) =
      Inr (PyFloat (Finite (i < 0) (2 * round_magnitude (\<bar>real_of_int i\<bar> / 24))))"
    and "pow2 (- 5) \<le> round_magnitude (\<bar>real_of_int i\<bar> / 24)"
    and "round_magnitude (\<bar>real_of_int i\<bar> / 24) \<le> pow2 400"
    by (simp_all add: pack_def Let_def abs_mult split: if_splits)
  moreover have "pow2 (- 405) \<le> pow2 (- 5)"
    by (simp add: pow2_le_iff)
  ultimately show ?thesis
    using PyInt by (simp del: py_truediv.simps)
next
  case (PyFloat x)
  with assms obtain s m where x: "x = Finite s m"
    and m: "round_magnitude m = m" "pow2 (- 400) \<le> m" "m \<le> pow2 400"
    by (cases x) auto
  from float_quotient_normal [OF m(2,3) literal_bounds(5,6), of s False]
  obtain r where r: "float_quotient (Finite s m) (Finite False 24) = Finite s r"
    "float_quotient (Finite s (2 * m)) (Finite False 24) = Finite s (2 * r)"
    "pow2 (- 405) \<le> r" "r \<le> pow2 396"
    by auto
  have "pow2 396 \<le> pow2 400"
    by (simp add: pow2_le_iff)
  with r(4) have "r \<le> pow2 400" by simp
  with py_double_float [OF m, of s] r PyFloat x show ?thesis
    by (simp add: py_truediv_literals del: py_truediv.simps)
qed

lemma estimate_homa_ir_float_doubles:
  assumes "py_magnitude_in d (- 400) 400" and "py_magnitude_in g (- 400) 400"
  shows "\<exists>v v2. estimate_homa_ir_float d g = Inr v \<and> py_mul (PyInt 2) v = Inr v2 \<and>
    (\<exists>d2. py_mul (PyInt 2) d = Inr d2 \<and> estimate_homa_ir_float d2 g = Inr v2) \<and>
    (\<exists>g2. py_mul (PyInt 2) g = Inr g2 \<and> estimate_homa_ir_float d g2 = Inr v2)"
proof -
  from py_truediv_24_double [OF assms(1)]
  obtain s r d2 where x: "py_truediv d (PyInt 24) = Inr (PyFloat (Finite s r))"
    and d2: "py_mul (PyInt 2) d = Inr d2"
    and x2: "py_truediv d2 (PyInt 24) = Inr (PyFloat (Finite s (2 * r)))"
    and r: "pow2 (- 405) \<le> r" "r \<le> pow2 400"
    by blast
  from to_float_double [OF assms(2)]
  obtain t n g2 where y: "to_float g = Inr (Finite t n)"
    and g2: "py_mul (PyInt 2) g = Inr g2"
    and y2: "to_float g2 = Inr (Finite t (2 * n))"
    and n: "pow2 (- 400) \<le> n" "n \<le> pow2 400"
    by auto
  from fasting_insulin_normal [OF r, of s]
  obtain f where f: "float_quotient (float_mul (float_quotient (float_quotient
      (float_mul (float_mul (Finite s r) (Finite False 6)) (Finite False 1000))
      (Finite False 60)) (Finite False 1500)) (Finite False 1000)) (Finite False 6) = Finite s f"
    and f2: "float_quotient (float_mul (float_quotient (float_quotient
      (float_mul (float_mul (Finite s (2 * r)) (Finite False 6)) (Finite False 1000))
      (Finite False 60)) (Finite False 1500)) (Finite False 1000)) (Finite False 6) =
      Finite s (2 * f)"
    and fb: "pow2 (- 405) \<le> f" "f \<le> pow2 406"
    by blast
  from float_mul_normal [OF fb n, of s t]
  obtain p where p: "float_mul (Finite s f) (Finite t n) = Finite (s \<noteq> t) p"
    "float_mul (Finite s (2 * f)) (Finite t n) = Finite (s \<noteq> t) (2 * p)"
    "float_mul (Finite s f) (Finite t (2 * n)) = Finite (s \<noteq> t) (2 * p)"
    "pow2 (- 805) \<le> p" "p \<le> pow2 806"
    by auto
  from float_quotient_normal [OF p(4,5) literal_bounds(11,12), of "s \<noteq> t" False]
  obtain q where q: "float_quotient (Finite (s \<noteq> t) p) (Finite False 405) = Finite (s \<noteq> t) q"
    "float_quotient (Finite (s \<noteq> t) (2 * p)) (Finite False 405) = Finite (s \<noteq> t) (2 * q)"
    "round_magnitude q = q" "pow2 (- 814) \<le> q" "q \<le> pow2 798"
    by auto
  have v: "estimate_homa_ir_float d g = Inr (PyFloat (Finite (s \<noteq> t) q))"
    by (simp only: estimate_homa_ir_float_chain [OF x] y bind_result_Inr f p q)
  have vd: "estimate_homa_ir_float d2 g = Inr (PyFloat (Finite (s \<noteq> t) (2 * q)))"
    by (simp only: estimate_homa_ir_float_chain [OF x2] y bind_result_Inr f2 p q)
  have vg: "estimate_homa_ir_float d g2 = Inr (PyFloat (Finite (s \<noteq> t) (2 * q)))"
    by (simp only: estimate_homa_ir_float_chain [OF x] y2 bind_result_Inr f p q)
  have v2: "py_mul (PyInt 2) (PyFloat (Finite (s \<noteq> t) q)) =
      Inr (PyFloat (Finite (s \<noteq> t) (2 * q)))"
    by (rule py_double_float [OF q(3,4,5)]) simp_all
  from v v2 d2 vd g2 vg show ?thesis
    by blast
qed

subsection \<open>The function at concrete inputs\<close>

text \<open>
  Each step is one rounding, checked by evaluating the definitions: the worked example
  \<open>(20, 140)\<close>, a dose whose intermediate product is just below the largest float and
  its double, a subnormal dose and its double, and a large dose with a zero glucose.
\<close>

lemma example_steps:
  "py_truediv (PyInt 20) (PyInt 24) = Inr (PyFloat (Finite False (7505999378950827 / 2 ^ 53)))"
  "to_float (PyInt 140) = Inr (Finite False (35 * 2 ^ 2))"
  "float_mul (Finite False (7505999378950827 / 2 ^ 53)) (Finite False 6) = Finite False 5"
  "float_mul (Finite False 5) (Finite False 1000) = Finite False (625 * 2 ^ 3)"
  "float_quotient (Finite False (625 * 2 ^ 3)) (Finite False 60) = Finite False (5864062014805333 / 2 ^ 46)"
  "float_quotient (Finite False (5864062014805333 / 2 ^ 46)) (Finite False 1500) = Finite False (2001599834386887 / 2 ^ 55)"
  "float_mul (Finite False (2001599834386887 / 2 ^ 55)) (Finite False 1000) = Finite False (7818749353073777 / 2 ^ 47)"
  "float_quotient (Finite False (7818749353073777 / 2 ^ 47)) (Finite False 6) = Finite False (5212499568715851 / 2 ^ 49)"
  "float_mul (Finite False (5212499568715851 / 2 ^ 49)) (Finite False (35 * 2 ^ 2)) = Finite False (2850585701641481 / 2 ^ 41)"
  "float_quotient (Finite False (2850585701641481 / 2 ^ 41)) (Finite False 405) = Finite False (7207406811063893 / 2 ^ 51)"
proof -
  show "py_truediv (PyInt 20) (PyInt 24) = Inr (PyFloat (Finite False (7505999378950827 / 2 ^ 53)))"
    by (simp add: round_magnitude_eval [of "- 53"] pow2_def round_half_even_def)
  show "to_float (PyInt 140) = Inr (Finite False (35 * 2 ^ 2))"
    by (simp add: float_of_int_def round_magnitude_eval [of "- 45"] pow2_def round_half_even_def)
  show "float_mul (Finite False (7505999378950827 / 2 ^ 53)) (Finite False 6) = Finite False 5"
    by (simp add: pack_eval [of "- 50"] pow2_def round_half_even_def)
  show "float_mul (Finite False 5) (Finite False 1000) = Finite False (625 * 2 ^ 3)"
    by (simp add: pack_eval [of "- 40"] pow2_def round_half_even_def)
  show "float_quotient (Finite False (625 * 2 ^ 3)) (Finite False 60) = Finite False (5864062014805333 / 2 ^ 46)"
    by (simp add: pack_eval [of "- 46"] pow2_def round_half_even_def)
  show "float_quotient (Finite False (5864062014805333 / 2 ^ 46)) (Finite False 1500) = Finite False (2001599834386887 / 2 ^ 55)"
    by (simp add: pack_eval [of "- 57"] pow2_def round_half_even_def)
  show "float_mul (Finite False (2001599834386887 / 2 ^ 55)) (Finite False 1000) = Finite False (7818749353073777 / 2 ^ 47)"
    by (simp add: pack_eval [of "- 47"] pow2_def round_half_even_def)
  show "float_quotient (Finite False (7818749353073777 / 2 ^ 47)) (Finite False 6) = Finite False (5212499568715851 / 2 ^ 49)"
    by (simp add: pack_eval [of "- 49"] pow2_def round_half_even_def)
  show "float_mul (Finite False (5212499568715851 / 2 ^ 49)) (Finite False (35 * 2 ^ 2)) = Finite False (2850585701641481 / 2 ^ 41)"
    by (simp add: pack_eval [of "- 42"] pow2_def round_half_even_def)
  show "float_quotient (Finite False (2850585701641481 / 2 ^ 41)) (Finite False 405) = Finite False (7207406811063893 / 2 ^ 51)"
    by (simp add: pack_eval [of "- 51"] pow2_def round_half_even_def)
qed

lemma example_value:
  "estimate_homa_ir_float (PyInt 20) (PyInt 140) = Inr (PyFloat (Finite False (7207406811063893 / 2 ^ 51)))"
  by (simp only: estimate_homa_ir_float_chain [OF example_steps(1)] example_steps bind_result_Inr)

lemma large_dose_steps:
  "py_truediv (PyFloat (Finite False (2 ^ 1016))) (PyInt 24) = Inr (PyFloat (Finite False (6004799503160661 * 2 ^ 959)))"
  "to_float (PyInt 1) = Inr (Finite False 1)"
  "float_mul (Finite False (6004799503160661 * 2 ^ 959)) (Finite False 6) = Finite False (2 ^ 1014)"
  "float_mul (Finite False (2 ^ 1014)) (Finite False 1000) = Finite False (125 * 2 ^ 1017)"
  "float_quotient (Finite False (125 * 2 ^ 1017)) (Finite False 60) = Finite False (4691249611844267 * 2 ^ 966)"
  "float_quotient (Finite False (4691249611844267 * 2 ^ 966)) (Finite False 1500) = Finite False (6405119470038039 * 2 ^ 955)"
  "float_mul (Finite False (6405119470038039 * 2 ^ 955)) (Finite False 1000) = Finite False (3127499741229511 * 2 ^ 966)"
  "float_quotient (Finite False (3127499741229511 * 2 ^ 966)) (Finite False 6) = Finite False (8339999309945363 * 2 ^ 962)"
  "float_mul (Finite False (8339999309945363 * 2 ^ 962)) (Finite False 1) = Finite False (8339999309945363 * 2 ^ 962)"
  "float_quotient (Finite False (8339999309945363 * 2 ^ 962)) (Finite False 405) = Finite False (1317925816880255 * 2 ^ 956)"
proof -
  show "py_truediv (PyFloat (Finite False (2 ^ 1016))) (PyInt 24) = Inr (PyFloat (Finite False (6004799503160661 * 2 ^ 959)))"
    by (simp add: py_truediv_literals del: py_truediv.simps, simp add: pack_eval [of "959"] pow2_def round_half_even_def)
  show "to_float (PyInt 1) = Inr (Finite False 1)"
    by (simp add: float_of_int_def round_magnitude_eval [of "- 52"] pow2_def round_half_even_def)
  show "float_mul (Finite False (6004799503160661 * 2 ^ 959)) (Finite False 6) = Finite False (2 ^ 1014)"
    by (simp add: pack_eval [of "961"] pow2_def round_half_even_def)
  show "float_mul (Finite False (2 ^ 1014)) (Finite False 1000) = Finite False (125 * 2 ^ 1017)"
    by (simp add: pack_eval_top pow2_def round_half_even_def)
  show "float_quotient (Finite False (125 * 2 ^ 1017)) (Finite False 60) = Finite False (4691249611844267 * 2 ^ 966)"
    by (simp add: pack_eval [of "966"] pow2_def round_half_even_def)
  show "float_quotient (Finite False (4691249611844267 * 2 ^ 966)) (Finite False 1500) = Finite False (6405119470038039 * 2 ^ 955)"
    by (simp add: pack_eval [of "955"] pow2_def round_half_even_def)
  show "float_mul (Finite False (6405119470038039 * 2 ^ 955)) (Finite False 1000) = Finite False (3127499741229511 * 2 ^ 966)"
    by (simp add: pack_eval [of "965"] pow2_def round_half_even_def)
  show "float_quotient (Finite False (3127499741229511 * 2 ^ 966)) (Finite False 6) = Finite False (8339999309945363 * 2 ^ 962)"
    by (simp add: pack_eval [of "962"] pow2_def round_half_even_def)
  show "float_mul (Finite False (8339999309945363 * 2 ^ 962)) (Finite False 1) = Finite False (8339999309945363 * 2 ^ 962)"
    by (simp add: pack_eval [of "962"] pow2_def round_half_even_def)
  show "float_quotient (Finite False (8339999309945363 * 2 ^ 962)) (Finite False 405) = Finite False (1317925816880255 * 2 ^ 956)"
    by (simp add: pack_eval [of "954"] pow2_def round_half_even_def)
qed

lemma large_dose_value:
  "estimate_homa_ir_float (PyFloat (Finite False (2 ^ 1016))) (PyInt 1) = Inr (PyFloat (Finite False (1317925816880255 * 2 ^ 956)))"
  by (simp only: estimate_homa_ir_float_chain [OF large_dose_steps(1)] large_dose_steps bind_result_Inr)

lemma larger_dose_steps:
  "py_truediv (PyFloat (Finite False (2 ^ 1017))) (PyInt 24) = Inr (PyFloat (Finite False (6004799503160661 * 2 ^ 960)))"
  "to_float (PyInt 1) = Inr (Finite False 1)"
  "float_mul (Finite False (6004799503160661 * 2 ^ 960)) (Finite False 6) = Finite False (2 ^ 1015)"
  "float_mul (Finite False (2 ^ 1015)) (Finite False 1000) = Infinity False"
  "float_quotient (Infinity False) (Finite False 60) = Infinity False"
  "float_quotient (Infinity False) (Finite False 1500) = Infinity False"
  "float_mul (Infinity False) (Finite False 1000) = Infinity False"
  "float_quotient (Infinity False) (Finite False 6) = Infinity False"
  "float_mul (Infinity False) (Finite False 1) = Infinity False"
  "float_quotient (Infinity False) (Finite False 405) = Infinity False"
proof -
  show "py_truediv (PyFloat (Finite False (2 ^ 1017))) (PyInt 24) = Inr (PyFloat (Finite False (6004799503160661 * 2 ^ 960)))"
    by (simp add: py_truediv_literals del: py_truediv.simps, simp add: pack_eval [of "960"] pow2_def round_half_even_def)
  show "to_float (PyInt 1) = Inr (Finite False 1)"
    by (simp add: float_of_int_def round_magnitude_eval [of "- 52"] pow2_def round_half_even_def)
  show "float_mul (Finite False (6004799503160661 * 2 ^ 960)) (Finite False 6) = Finite False (2 ^ 1015)"
    by (simp add: pack_eval [of "962"] pow2_def round_half_even_def)
  show "float_mul (Finite False (2 ^ 1015)) (Finite False 1000) = Infinity False"
    by (simp add: pack_overflow pow2_def)
  show "float_quotient (Infinity False) (Finite False 60) = Infinity False"
    by simp
  show "float_quotient (Infinity False) (Finite False 1500) = Infinity False"
    by simp
  show "float_mul (Infinity False) (Finite False 1000) = Infinity False"
    by simp
  show "float_quotient (Infinity False) (Finite False 6) = Infinity False"
    by simp
  show "float_mul (Infinity False) (Finite False 1) = Infinity False"
    by simp
  show "float_quotient (Infinity False) (Finite False 405) = Infinity False"
    by simp
qed

lemma larger_dose_value:
  "estimate_homa_ir_float (PyFloat (Finite False (2 ^ 1017))) (PyInt 1) = Inr (PyFloat (Infinity False))"
  by (simp only: estimate_homa_ir_float_chain [OF larger_dose_steps(1)] larger_dose_steps bind_result_Inr)

lemma tiny_dose_steps:
  "py_truediv (PyFloat (Finite False (90 / 2 ^ 1074))) (PyInt 24) = Inr (PyFloat (Finite False (1 / 2 ^ 1072)))"
  "float_mul (Finite False (1 / 2 ^ 1072)) (Finite False 6) = Finite False (3 / 2 ^ 1071)"
  "float_mul (Finite False (3 / 2 ^ 1071)) (Finite False 1000) = Finite False (375 / 2 ^ 1068)"
  "float_quotient (Finite False (375 / 2 ^ 1068)) (Finite False 60) = Finite False (25 / 2 ^ 1070)"
  "float_quotient (Finite False (25 / 2 ^ 1070)) (Finite False 1500) = Finite False 0"
  "float_mul (Finite False 0) (Finite False 1000) = Finite False 0"
  "float_quotient (Finite False 0) (Finite False 6) = Finite False 0"
  "float_mul (Finite False 0) (Finite False (2 ^ 1000)) = Finite False 0"
  "float_quotient (Finite False 0) (Finite False 405) = Finite False 0"
proof -
  show "py_truediv (PyFloat (Finite False (90 / 2 ^ 1074))) (PyInt 24) = Inr (PyFloat (Finite False (1 / 2 ^ 1072)))"
    by (simp add: py_truediv_literals del: py_truediv.simps, simp add: pack_subnormal pow2_def round_half_even_def)
  show "float_mul (Finite False (1 / 2 ^ 1072)) (Finite False 6) = Finite False (3 / 2 ^ 1071)"
    by (simp add: pack_subnormal pow2_def round_half_even_def)
  show "float_mul (Finite False (3 / 2 ^ 1071)) (Finite False 1000) = Finite False (375 / 2 ^ 1068)"
    by (simp add: pack_subnormal pow2_def round_half_even_def)
  show "float_quotient (Finite False (375 / 2 ^ 1068)) (Finite False 60) = Finite False (25 / 2 ^ 1070)"
    by (simp add: pack_subnormal pow2_def round_half_even_def)
  show "float_quotient (Finite False (25 / 2 ^ 1070)) (Finite False 1500) = Finite False 0"
    by (simp add: pack_subnormal pow2_def round_half_even_def)
  show "float_mul (Finite False 0) (Finite False 1000) = Finite False 0"
    by (simp add: pack_zero)
  show "float_quotient (Finite False 0) (Finite False 6) = Finite False 0"
    by (simp add: pack_zero)
  show "float_mul (Finite False 0) (Finite False (2 ^ 1000)) = Finite False 0"
    by (simp add: pack_zero)
  show "float_quotient (Finite False 0) (Finite False 405) = Finite False 0"
    by (simp add: pack_zero)
qed

lemma tiny_dose_value:
  "estimate_homa_ir_float (PyFloat (Finite False (90 / 2 ^ 1074))) (PyFloat (Finite False (2 ^ 1000))) = Inr (PyFloat (Finite False 0))"
  by (simp only: estimate_homa_ir_float_chain [OF tiny_dose_steps(1)] tiny_dose_steps bind_result_Inr to_float.simps)

lemma tiny_dose_doubled_steps:
  "py_truediv (PyFloat (Finite False (180 / 2 ^ 1074))) (PyInt 24) = Inr (PyFloat (Finite False (1 / 2 ^ 1071)))"
  "float_mul (Finite False (1 / 2 ^ 1071)) (Finite False 6) = Finite False (3 / 2 ^ 1070)"
  "float_mul (Finite False (3 / 2 ^ 1070)) (Finite False 1000) = Finite False (375 / 2 ^ 1067)"
  "float_quotient (Finite False (375 / 2 ^ 1067)) (Finite False 60) = Finite False (25 / 2 ^ 1069)"
  "float_quotient (Finite False (25 / 2 ^ 1069)) (Finite False 1500) = Finite False (1 / 2 ^ 1074)"
  "float_mul (Finite False (1 / 2 ^ 1074)) (Finite False 1000) = Finite False (125 / 2 ^ 1071)"
  "float_quotient (Finite False (125 / 2 ^ 1071)) (Finite False 6) = Finite False (167 / 2 ^ 1074)"
  "float_mul (Finite False (167 / 2 ^ 1074)) (Finite False (2 ^ 1000)) = Finite False (167 / 2 ^ 74)"
  "float_quotient (Finite False (167 / 2 ^ 74)) (Finite False 405) = Finite False (7428159385391337 / 2 ^ 128)"
proof -
  show "py_truediv (PyFloat (Finite False (180 / 2 ^ 1074))) (PyInt 24) = Inr (PyFloat (Finite False (1 / 2 ^ 1071)))"
    by (simp add: py_truediv_literals del: py_truediv.simps, simp add: pack_subnormal pow2_def round_half_even_def)
  show "float_mul (Finite False (1 / 2 ^ 1071)) (Finite False 6) = Finite False (3 / 2 ^ 1070)"
    by (simp add: pack_subnormal pow2_def round_half_even_def)
  show "float_mul (Finite False (3 / 2 ^ 1070)) (Finite False 1000) = Finite False (375 / 2 ^ 1067)"
    by (simp add: pack_subnormal pow2_def round_half_even_def)
  show "float_quotient (Finite False (375 / 2 ^ 1067)) (Finite False 60) = Finite False (25 / 2 ^ 1069)"
    by (simp add: pack_subnormal pow2_def round_half_even_def)
  show "float_quotient (Finite False (25 / 2 ^ 1069)) (Finite False 1500) = Finite False (1 / 2 ^ 1074)"
    by (simp add: pack_subnormal pow2_def round_half_even_def)
  show "float_mul (Finite False (1 / 2 ^ 1074)) (Finite False 1000) = Finite False (125 / 2 ^ 1071)"
    by (simp add: pack_subnormal pow2_def round_half_even_def)
  show "float_quotient (Finite False (125 / 2 ^ 1071)) (Finite False 6) = Finite False (167 / 2 ^ 1074)"
    by (simp add: pack_subnormal pow2_def round_half_even_def)
  show "float_mul (Finite False (167 / 2 ^ 1074)) (Finite False (2 ^ 1000)) = Finite False (167 / 2 ^ 74)"
    by (simp add: pack_eval [of "- 119"] pow2_def round_half_even_def)
  show "float_quotient (Finite False (167 / 2 ^ 74)) (Finite False 405) = Finite False (7428159385391337 / 2 ^ 128)"
    by (simp add: pack_eval [of "- 128"] pow2_def round_half_even_def)
qed

lemma tiny_dose_doubled_value:
  "estimate_homa_ir_float (PyFloat (Finite False (180 / 2 ^ 1074))) (PyFloat (Finite False (2 ^ 1000))) = Inr (PyFloat (Finite False (7428159385391337 / 2 ^ 128)))"
  by (simp only: estimate_homa_ir_float_chain [OF tiny_dose_doubled_steps(1)] tiny_dose_doubled_steps bind_result_Inr to_float.simps)

lemma larger_dose_zero_steps:
  "py_truediv (PyFloat (Finite False (2 ^ 1017))) (PyInt 24) = Inr (PyFloat (Finite False (6004799503160661 * 2 ^ 960)))"
  "to_float (PyInt 0) = Inr (Finite False 0)"
  "float_mul (Finite False (6004799503160661 * 2 ^ 960)) (Finite False 6) = Finite False (2 ^ 1015)"
  "float_mul (Finite False (2 ^ 1015)) (Finite False 1000) = Infinity False"
  "float_quotient (Infinity False) (Finite False 60) = Infinity False"
  "float_quotient (Infinity False) (Finite False 1500) = Infinity False"
  "float_mul (Infinity False) (Finite False 1000) = Infinity False"
  "float_quotient (Infinity False) (Finite False 6) = Infinity False"
  "float_mul (Infinity False) (Finite False 0) = NaN"
  "float_quotient NaN (Finite False 405) = NaN"
proof -
  show "py_truediv (PyFloat (Finite False (2 ^ 1017))) (PyInt 24) = Inr (PyFloat (Finite False (6004799503160661 * 2 ^ 960)))"
    by (simp add: py_truediv_literals del: py_truediv.simps, simp add: pack_eval [of "960"] pow2_def round_half_even_def)
  show "to_float (PyInt 0) = Inr (Finite False 0)"
    by (simp add: float_of_int_def round_magnitude_zero pow2_1024_pos)
  show "float_mul (Finite False (6004799503160661 * 2 ^ 960)) (Finite False 6) = Finite False (2 ^ 1015)"
    by (simp add: pack_eval [of "962"] pow2_def round_half_even_def)
  show "float_mul (Finite False (2 ^ 1015)) (Finite False 1000) = Infinity False"
    by (simp add: pack_overflow pow2_def)
  show "float_quotient (Infinity False) (Finite False 60) = Infinity False"
    by simp
  show "float_quotient (Infinity False) (Finite False 1500) = Infinity False"
    by simp
  show "float_mul (Infinity False) (Finite False 1000) = Infinity False"
    by simp
  show "float_quotient (Infinity False) (Finite False 6) = Infinity False"
    by simp
  show "float_mul (Infinity False) (Finite False 0) = NaN"
    by simp
  show "float_quotient NaN (Finite False 405) = NaN"
    by simp
qed

lemma larger_dose_zero_value:
  "estimate_homa_ir_float (PyFloat (Finite False (2 ^ 1017))) (PyInt 0) = Inr (PyFloat (NaN))"
  by (simp only: estimate_homa_ir_float_chain [OF larger_dose_zero_steps(1)] larger_dose_zero_steps bind_result_Inr)

lemma doubling_values:
  "py_mul (PyInt 2) (PyFloat (Finite False (2 ^ 1016))) = Inr (PyFloat (Finite False (2 ^ 1017)))"
  "py_mul (PyInt 2) (PyFloat (Finite False (1317925816880255 * 2 ^ 956))) =
     Inr (PyFloat (Finite False (1317925816880255 * 2 ^ 957)))"
  "py_mul (PyInt 2) (PyFloat (Finite False (90 / 2 ^ 1074))) =
     Inr (PyFloat (Finite False (180 / 2 ^ 1074)))"
  "py_mul (PyInt 2) (PyFloat (Finite False 0)) = Inr (PyFloat (Finite False 0))"
proof -
  show "py_mul (PyInt 2) (PyFloat (Finite False (2 ^ 1016))) =
      Inr (PyFloat (Finite False (2 ^ 1017)))"
    by (simp add: py_mul_literals del: py_mul.simps)
      (simp add: pack_eval [of 965] pow2_def round_half_even_def)
  show "py_mul (PyInt 2) (PyFloat (Finite False (1317925816880255 * 2 ^ 956))) =
      Inr (PyFloat (Finite False (1317925816880255 * 2 ^ 957)))"
    by (simp add: py_mul_literals del: py_mul.simps)
      (simp add: pack_eval [of 955] pow2_def round_half_even_def)
  show "py_mul (PyInt 2) (PyFloat (Finite False (90 / 2 ^ 1074))) =
      Inr (PyFloat (Finite False (180 / 2 ^ 1074)))"
    by (simp add: py_mul_literals del: py_mul.simps)
      (simp add: pack_subnormal pow2_def round_half_even_def)
  show "py_mul (PyInt 2) (PyFloat (Finite False 0)) = Inr (PyFloat (Finite False 0))"
    by (simp add: py_mul_literals pack_zero del: py_mul.simps)
qed

section \<open>The closed form\<close>



text \<open>
  C2, as the specification states it: for all non-negative reals \<open>d\<close> and \<open>g\<close>,
  \<open>estimate_homa_ir d g\<close> equals \<open>d * g / 145800\<close>. It fails at the worked example
  of the notebook, \<open>d = 20\<close> and \<open>g = 140\<close>, where the function returns
  \<open>7000 / 2187\<close> (about 3.2007) and the stated form gives \<open>7 / 364.5\<close> (about
  0.0192). The float that the call returns there is
  \<open>7207406811063893 / 2 ^ 51\<close>, the float nearest to the result of the rounded
  steps; it is close to \<open>7000 / 2187\<close> and not equal to it.
\<close>

theorem estimate_homa_ir_145800_counterexample:
  "(0::real) \<le> 20 \<and> (0::real) \<le> 140 \<and>
   estimate_homa_ir 20 140 = Inr (7000 / 2187) \<and>
   estimate_homa_ir 20 140 \<noteq> Inr (20 * 140 / 145800) \<and>
   estimate_homa_ir_float (PyInt 20) (PyInt 140) =
     Inr (PyFloat (Finite False (7207406811063893 / 2 ^ 51))) \<and>
   (7207406811063893 / 2 ^ 51 :: real) \<noteq> 20 * 140 / 145800 \<and>
   (7207406811063893 / 2 ^ 51 :: real) \<noteq> 20 * 140 / 874.8"
proof (intro conjI)
  show "estimate_homa_ir 20 140 = Inr (7000 / 2187)"
    by (rule estimate_homa_ir_example)
  then show "estimate_homa_ir 20 140 \<noteq> Inr (20 * 140 / 145800)"
    by simp
  show "estimate_homa_ir_float (PyInt 20) (PyInt 140) =
      Inr (PyFloat (Finite False (7207406811063893 / 2 ^ 51)))"
    by (rule example_value)
qed simp_all

text \<open>
  C2, amended: for all non-negative reals \<open>d\<close> and \<open>g\<close>, the value that
  \<open>estimate_homa_ir d g\<close> computes, read in exact real arithmetic, is the simplified
  closed form \<open>d * g / 874.8\<close>. The steps collapse to the factor
  \<open>1000 * 1000 / (24 * 60 * 1500 * 405) = 1 / 874.8\<close> (the two factors 6 cancel), not
  \<open>1 / 145800\<close>. The float that a call returns is the result of the rounded steps and
  can differ from the closed form in its last places, as at \<open>(20, 140)\<close>.
\<close>

theorem estimate_homa_ir_simplified:
  assumes "0 \<le> d" and "0 \<le> g"
  shows "estimate_homa_ir d g = Inr (d * g / 874.8)"
  by (simp add: estimate_homa_ir_scaled)

theorem estimate_homa_ir_simplified_witness:
  "(0::real) \<le> 20 \<and> (0::real) \<le> 140 \<and> estimate_homa_ir 20 140 = Inr (20 * 140 / 874.8)"
proof -
  have d: "(0::real) \<le> 20" and g: "(0::real) \<le> 140"
    by simp_all
  from estimate_homa_ir_simplified [OF d g] d g show ?thesis
    by blast
qed

text \<open>
  C3. For all reals \<open>d\<close> and \<open>g\<close>, of either sign, the value that
  \<open>estimate_homa_ir d g\<close> computes in exact arithmetic is \<open>25 * d * g / 21870\<close>,
  which is \<open>d * g / 874.8\<close>: one constant scaling of the product of the inputs.
\<close>

theorem estimate_homa_ir_constant_scaling:
  "estimate_homa_ir d g = Inr (25 * d * g / 21870) \<and>
   estimate_homa_ir d g = Inr (d * g / 874.8)"
  by (simp add: estimate_homa_ir_steps)

section \<open>The worked example\<close>

text \<open>
  C4. \<open>estimate_homa_ir 20 140\<close> is \<open>7000 / 2187\<close>, which lies within half a
  hundredth of 3.20 and is formatted by \<^verbatim>\<open>.2f\<close> as \<open>3.20\<close>; and the example
  driver, whatever has been printed before, prints exactly the line
  \<open>Estimated HOMA-IR: 3.20\<close>.
\<close>

theorem main_prints_3_20:
  "estimate_homa_ir 20 140 = Inr (7000 / 2187) \<and>
   \<bar>7000 / 2187 - 3.20\<bar> < (0.005::real) \<and>
   round_half_even (7000 / 2187 * 100) = 320 \<and>
   format_2f (7000 / 2187) = ''3.20'' \<and>
   main stdout = Inr (stdout @ [''Estimated HOMA-IR: 3.20''])"
proof -
  have r: "round_half_even (7000 / 2187 * 100) = 320"
    by (simp add: round_half_even_def Let_def)
  have m: "main stdout = Inr (stdout @ [''Estimated HOMA-IR: 3.20''])"
    unfolding main_def Let_def estimate_homa_ir_example bind_result_Inr format_2f_example
    by simp
  from r m show ?thesis
    by (simp add: estimate_homa_ir_example format_2f_example)
qed

section \<open>Zero inputs\<close>

text \<open>
  C5, as the specification states it: for every real \<open>g\<close>,
  \<open>estimate_homa_ir(0, g)\<close> returns 0. It fails where \<open>g\<close> is an int too large
  for a float: at \<open>g = 10 ^ 310\<close> the call raises \<^verbatim>\<open>OverflowError\<close> when the
  float \<^verbatim>\<open>0.0\<close> is multiplied by the int, and returns nothing.
\<close>

theorem zero_insulin_huge_glucose_raises:
  "estimate_homa_ir_float (PyInt 0) (PyInt (10 ^ 310)) = Inl OverflowError"
proof -
  have "pow2 1024 \<le> (10 ^ 310 :: real)"
    by (simp add: pow2_def)
  then have "pow2 1024 \<le> round_magnitude (10 ^ 310)"
    by (rule round_magnitude_ge) simp
  then have "to_float (PyInt (10 ^ 310)) = Inl OverflowError"
    by (simp add: float_of_int_def)
  then show ?thesis
    by (simp only: estimate_homa_ir_float_chain [OF py_truediv_24_PyInt_0] bind_result_Inl)
qed

text \<open>
  C5, amended: for a zero dose \<open>d\<close> (the int 0, \<^verbatim>\<open>0.0\<close> or \<^verbatim>\<open>-0.0\<close>) and every
  \<open>g\<close> that is a finite float or an int that converts to a float (of magnitude below
  \<open>2 ^ 1024\<close>, about 1.8e308), \<open>estimate_homa_ir(d, g)\<close> returns a float zero
  (\<^verbatim>\<open>0.0\<close> or \<^verbatim>\<open>-0.0\<close>), which compares equal to 0. An int \<open>g\<close> too large for a
  float raises \<^verbatim>\<open>OverflowError\<close> instead.
\<close>

theorem zero_insulin_gives_zero:
  assumes "py_is_zero d" and "to_float g = Inr (Finite t n)"
  shows "\<exists>s. estimate_homa_ir_float d g = Inr (PyFloat (Finite s 0)) \<and>
    py_eq (PyFloat (Finite s 0)) (PyInt 0)"
proof -
  have "\<exists>s. py_truediv d (PyInt 24) = Inr (PyFloat (Finite s 0))"
  proof (cases d)
    case (PyInt i)
    with assms(1) show ?thesis
      by (auto simp: py_truediv_24_int round_magnitude_zero pow2_1024_pos simp del: py_truediv.simps)
  next
    case (PyFloat x)
    with assms(1) obtain s where "x = Finite s 0"
      by (cases x) auto
    with PyFloat show ?thesis
      by (simp add: py_truediv_24_float pack_zero del: py_truediv.simps)
  qed
  then obtain s where x: "py_truediv d (PyInt 24) = Inr (PyFloat (Finite s 0))" ..
  have "estimate_homa_ir_float d g = Inr (PyFloat (Finite (s \<noteq> t) 0))"
    unfolding estimate_homa_ir_float_chain [OF x] assms(2) bind_result_Inr
    by (simp add: pack_zero)
  then show ?thesis
    by (simp add: signed_def)
qed

theorem zero_insulin_gives_zero_witness:
  "py_is_zero (PyInt 0) \<and> to_float (PyFloat (Finite True 5)) = Inr (Finite True 5) \<and>
   (\<exists>s. estimate_homa_ir_float (PyInt 0) (PyFloat (Finite True 5)) =
      Inr (PyFloat (Finite s 0)) \<and>
    py_eq (PyFloat (Finite s 0)) (PyInt 0))"
proof -
  have d: "py_is_zero (PyInt 0)"
    by simp
  have g: "to_float (PyFloat (Finite True 5)) = Inr (Finite True 5)"
    by simp
  from zero_insulin_gives_zero [OF d g] d g show ?thesis
    by blast
qed

text \<open>
  C6, as the specification states it: for every real \<open>d\<close>,
  \<open>estimate_homa_ir(d, 0)\<close> returns 0. It fails at the finite float \<open>d = 2 ^ 1017\<close>
  (about 1.4e306): the product \<^verbatim>\<open>rate * 6 * 1_000\<close> overflows to \<^verbatim>\<open>inf\<close>,
  \<^verbatim>\<open>inf * 0\<close> is \<^verbatim>\<open>nan\<close>, and the call returns \<^verbatim>\<open>nan\<close>, which is not equal
  to 0.
\<close>

theorem huge_insulin_zero_glucose_is_nan:
  "estimate_homa_ir_float (PyFloat (Finite False (2 ^ 1017))) (PyInt 0) = Inr (PyFloat NaN) \<and>
   \<not> py_eq (PyFloat NaN) (PyInt 0)"
proof
  show "estimate_homa_ir_float (PyFloat (Finite False (2 ^ 1017))) (PyInt 0) = Inr (PyFloat NaN)"
    by (rule larger_dose_zero_value)
  show "\<not> py_eq (PyFloat NaN) (PyInt 0)"
    by simp
qed

text \<open>
  C6, amended: for a zero glucose \<open>g\<close> (the int 0, \<^verbatim>\<open>0.0\<close> or \<^verbatim>\<open>-0.0\<close>) and
  every \<open>d\<close> that is an int or a finite float of magnitude at most \<open>2 ^ 1000\<close>
  (about 1.07e301), \<open>estimate_homa_ir(d, g)\<close> returns a float zero (\<^verbatim>\<open>0.0\<close> or
  \<^verbatim>\<open>-0.0\<close>), which compares equal to 0. For a larger dose an intermediate product
  can overflow to \<^verbatim>\<open>inf\<close>, and the result is then \<^verbatim>\<open>nan\<close>.
\<close>

theorem zero_glucose_gives_zero:
  assumes "py_abs_le d (pow2 1000)" and "py_is_zero g"
  shows "\<exists>s. estimate_homa_ir_float d g = Inr (PyFloat (Finite s 0)) \<and>
    py_eq (PyFloat (Finite s 0)) (PyInt 0)"
proof -
  from py_truediv_24_bounded [OF assms(1)]
  obtain s m where x: "py_truediv d (PyInt 24) = Inr (PyFloat (Finite s m))" and m: "m \<le> pow2 1000"
    by blast
  from to_float_zero [OF assms(2)] obtain t where g: "to_float g = Inr (Finite t 0)" ..
  from fasting_insulin_bounded [OF m, of s] obtain s' m' where f: "float_quotient
      (float_mul
        (float_quotient
          (float_quotient
            (float_mul (float_mul (Finite s m) (Finite False 6)) (Finite False 1000))
            (Finite False 60))
          (Finite False 1500))
        (Finite False 1000))
      (Finite False 6) = Finite s' m'"
    by blast
  have "estimate_homa_ir_float d g = Inr (PyFloat (Finite (s' \<noteq> t) 0))"
    unfolding estimate_homa_ir_float_chain [OF x] g bind_result_Inr f
    by (simp add: pack_zero)
  then show ?thesis
    by (simp add: signed_def)
qed

theorem zero_glucose_gives_zero_witness:
  "py_abs_le (PyInt 20) (pow2 1000) \<and> py_is_zero (PyInt 0) \<and>
   (\<exists>s. estimate_homa_ir_float (PyInt 20) (PyInt 0) = Inr (PyFloat (Finite s 0)) \<and>
    py_eq (PyFloat (Finite s 0)) (PyInt 0))"
proof -
  have d: "py_abs_le (PyInt 20) (pow2 1000)"
    by (simp add: pow2_def)
  have g: "py_is_zero (PyInt 0)"
    by simp
  from zero_glucose_gives_zero [OF d g] d g show ?thesis
    by blast
qed

section \<open>Scaling and sign\<close>

text \<open>
  C7, as the specification states it: for all reals \<open>d\<close> and \<open>g\<close>,
  \<open>estimate_homa_ir(2*d, g) == 2*estimate_homa_ir(d, g)\<close>, and the same for \<open>g\<close>.
  It fails at both ends of the range of the floats. At \<open>d = 2 ^ 1016\<close> and
  \<open>g = 1\<close> the call returns a finite float (about 8.03e302) and the call at \<open>2 * d\<close>
  returns \<^verbatim>\<open>inf\<close>, because \<^verbatim>\<open>rate * 6 * 1_000\<close> overflows. At the subnormal
  \<open>d = 90 / 2 ^ 1074\<close> and \<open>g = 2 ^ 1000\<close> the call returns \<^verbatim>\<open>0.0\<close>, because the
  division by 1500 underflows, and the call at \<open>2 * d\<close> returns
  \<open>7428159385391337 / 2 ^ 128\<close> (about 2.18e-23).
\<close>

theorem doubling_fails_at_range_ends:
  "estimate_homa_ir_float (PyFloat (Finite False (2 ^ 1016))) (PyInt 1) =
     Inr (PyFloat (Finite False (1317925816880255 * 2 ^ 956))) \<and>
   py_mul (PyInt 2) (PyFloat (Finite False (1317925816880255 * 2 ^ 956))) =
     Inr (PyFloat (Finite False (1317925816880255 * 2 ^ 957))) \<and>
   py_mul (PyInt 2) (PyFloat (Finite False (2 ^ 1016))) =
     Inr (PyFloat (Finite False (2 ^ 1017))) \<and>
   estimate_homa_ir_float (PyFloat (Finite False (2 ^ 1017))) (PyInt 1) =
     Inr (PyFloat (Infinity False)) \<and>
   \<not> py_eq (PyFloat (Infinity False))
     (PyFloat (Finite False (1317925816880255 * 2 ^ 957))) \<and>
   estimate_homa_ir_float (PyFloat (Finite False (90 / 2 ^ 1074)))
     (PyFloat (Finite False (2 ^ 1000))) = Inr (PyFloat (Finite False 0)) \<and>
   py_mul (PyInt 2) (PyFloat (Finite False 0)) = Inr (PyFloat (Finite False 0)) \<and>
   py_mul (PyInt 2) (PyFloat (Finite False (90 / 2 ^ 1074))) =
     Inr (PyFloat (Finite False (180 / 2 ^ 1074))) \<and>
   estimate_homa_ir_float (PyFloat (Finite False (180 / 2 ^ 1074)))
     (PyFloat (Finite False (2 ^ 1000))) =
     Inr (PyFloat (Finite False (7428159385391337 / 2 ^ 128))) \<and>
   \<not> py_eq (PyFloat (Finite False (7428159385391337 / 2 ^ 128))) (PyFloat (Finite False 0))"
proof (intro conjI)
  show "\<not> py_eq (PyFloat (Infinity False))
      (PyFloat (Finite False (1317925816880255 * 2 ^ 957)))"
    by simp
  show "\<not> py_eq (PyFloat (Finite False (7428159385391337 / 2 ^ 128)))
      (PyFloat (Finite False 0))"
    by (simp add: signed_def)
qed (rule large_dose_value larger_dose_value tiny_dose_value tiny_dose_doubled_value
    doubling_values)+

text \<open>
  C7, amended: for all \<open>d\<close> and \<open>g\<close> that are ints or floats of magnitude from
  \<open>2 ^ - 400\<close> to \<open>2 ^ 400\<close> (about 3.9e-121 to 2.6e120), doubling either input
  doubles the output exactly: \<open>estimate_homa_ir(2*d, g)\<close> and
  \<open>estimate_homa_ir(d, 2*g)\<close> both return the float \<open>2*estimate_homa_ir(d, g)\<close>. In
  exact real arithmetic the formula is linear in each argument, for all reals: with
  \<open>u1\<close> and \<open>u2\<close> the values at \<open>x1\<close> and \<open>x2\<close>, the value at \<open>a * x1 + b * x2\<close> is
  \<open>a * u1 + b * u2\<close>.
\<close>

theorem doubling_doubles_in_range:
  assumes "py_magnitude_in d (- 400) 400" and "py_magnitude_in g (- 400) 400"
  shows "(\<exists>v v2. estimate_homa_ir_float d g = Inr v \<and> py_mul (PyInt 2) v = Inr v2 \<and>
      (\<exists>d2. py_mul (PyInt 2) d = Inr d2 \<and> estimate_homa_ir_float d2 g = Inr v2) \<and>
      (\<exists>g2. py_mul (PyInt 2) g = Inr g2 \<and> estimate_homa_ir_float d g2 = Inr v2)) \<and>
    (\<exists>u1 u2. estimate_homa_ir x1 z = Inr u1 \<and> estimate_homa_ir x2 z = Inr u2 \<and>
      estimate_homa_ir (a * x1 + b * x2) z = Inr (a * u1 + b * u2)) \<and>
    (\<exists>w1 w2. estimate_homa_ir z x1 = Inr w1 \<and> estimate_homa_ir z x2 = Inr w2 \<and>
      estimate_homa_ir z (a * x1 + b * x2) = Inr (a * w1 + b * w2))"
  using estimate_homa_ir_float_doubles [OF assms] estimate_homa_ir_linear_dose [of x1 z x2 a b]
    estimate_homa_ir_linear_glucose [of z x1 x2 a b]
  by (intro conjI)

theorem doubling_doubles_in_range_witness:
  "py_magnitude_in (PyInt 20) (- 400) 400 \<and> py_magnitude_in (PyInt 140) (- 400) 400 \<and>
   (\<exists>v v2. estimate_homa_ir_float (PyInt 20) (PyInt 140) = Inr v \<and>
      py_mul (PyInt 2) v = Inr v2 \<and>
      (\<exists>d2. py_mul (PyInt 2) (PyInt 20) = Inr d2 \<and>
         estimate_homa_ir_float d2 (PyInt 140) = Inr v2) \<and>
      (\<exists>g2. py_mul (PyInt 2) (PyInt 140) = Inr g2 \<and>
         estimate_homa_ir_float (PyInt 20) g2 = Inr v2)) \<and>
   (\<exists>u1 u2. estimate_homa_ir 20 140 = Inr u1 \<and> estimate_homa_ir 10 140 = Inr u2 \<and>
      estimate_homa_ir (2 * 20 + 3 * 10) 140 = Inr (2 * u1 + 3 * u2)) \<and>
   (\<exists>w1 w2. estimate_homa_ir 140 20 = Inr w1 \<and> estimate_homa_ir 140 10 = Inr w2 \<and>
      estimate_homa_ir 140 (2 * 20 + 3 * 10) = Inr (2 * w1 + 3 * w2))"
proof -
  have d: "py_magnitude_in (PyInt 20) (- 400) 400"
    by (simp add: pow2_def)
  have g: "py_magnitude_in (PyInt 140) (- 400) 400"
    by (simp add: pow2_def)
  from doubling_doubles_in_range [OF d g, of 20 140 10 2 3] d g show ?thesis
    by blast
qed

text \<open>
  C10, as stated: for all reals \<open>d\<close> and \<open>g\<close>,
  \<open>estimate_homa_ir(-d, g) == -estimate_homa_ir(d, g)\<close>, the same for \<open>g\<close>, and a
  negative input gives a negative score rather than an error. It fails in two ways.
  At the int \<open>d = 10 ^ 310\<close> the call at \<open>- d\<close> raises \<^verbatim>\<open>OverflowError\<close>, as the
  call at \<open>d\<close> does. At the float \<open>d = 2 ^ 1017\<close> and \<open>g = 0\<close> both calls return
  \<^verbatim>\<open>nan\<close>, and \<^verbatim>\<open>nan == -nan\<close> is false.
\<close>

theorem negation_fails_on_overflow:
  "py_neg (PyInt (10 ^ 310)) = PyInt (- (10 ^ 310)) \<and>
   estimate_homa_ir_float (PyInt (- (10 ^ 310))) (PyInt 140) = Inl OverflowError \<and>
   estimate_homa_ir_float (PyInt (10 ^ 310)) (PyInt 140) = Inl OverflowError \<and>
   estimate_homa_ir_float (PyFloat (Finite False (2 ^ 1017))) (PyInt 0) = Inr (PyFloat NaN) \<and>
   estimate_homa_ir_float (py_neg (PyFloat (Finite False (2 ^ 1017)))) (PyInt 0) =
     Inr (PyFloat NaN) \<and>
   \<not> py_eq (PyFloat NaN) (py_neg (PyFloat NaN))"
proof -
  have "pow2 1024 \<le> (10 ^ 310 / 24 :: real)"
    by (simp add: pow2_def)
  then have big: "pow2 1024 \<le> round_magnitude (10 ^ 310 / 24)"
    by (rule round_magnitude_ge) simp
  then have "py_truediv (PyInt (- (10 ^ 310))) (PyInt 24) = Inl OverflowError"
    by (simp add: py_truediv_24_int del: py_truediv.simps)
  then have minus: "estimate_homa_ir_float (PyInt (- (10 ^ 310))) (PyInt 140) = Inl OverflowError"
    by (rule estimate_homa_ir_float_first_error)
  from big have "py_truediv (PyInt (10 ^ 310)) (PyInt 24) = Inl OverflowError"
    by (simp add: py_truediv_24_int del: py_truediv.simps)
  then have plus: "estimate_homa_ir_float (PyInt (10 ^ 310)) (PyInt 140) = Inl OverflowError"
    by (rule estimate_homa_ir_float_first_error)
  have "PyFloat (Finite False (2 ^ 1017)) \<noteq> PyInt 0"
    by simp
  from estimate_homa_ir_float_neg_dose [OF this larger_dose_zero_value]
  have nan: "estimate_homa_ir_float (py_neg (PyFloat (Finite False (2 ^ 1017)))) (PyInt 0) =
      Inr (PyFloat NaN)"
    by (simp only: float_neg.simps)
  show ?thesis
  proof (intro conjI)
    show "py_neg (PyInt (10 ^ 310)) = PyInt (- (10 ^ 310))"
      by simp
    show "\<not> py_eq (PyFloat NaN) (py_neg (PyFloat NaN))"
      by simp
  qed (rule minus plus nan larger_dose_zero_value)+
qed

text \<open>
  C10, amended: for all ints and floats \<open>d\<close> and \<open>g\<close> for which
  \<open>estimate_homa_ir(d, g)\<close> returns a number other than \<^verbatim>\<open>nan\<close>, the calls
  \<open>estimate_homa_ir(-d, g)\<close> and \<open>estimate_homa_ir(d, -g)\<close> return a value equal
  (\<^verbatim>\<open>==\<close>) to \<open>-estimate_homa_ir(d, g)\<close>: a negative dose or glucose value gives
  the negated score, not an error, wherever the value of the other sign gives a score.
\<close>

theorem negation_negates:
  assumes "estimate_homa_ir_float d g = Inr v" and "\<not> py_is_nan v"
  shows "(\<exists>w. estimate_homa_ir_float (py_neg d) g = Inr w \<and> py_eq w (py_neg v)) \<and>
         (\<exists>w. estimate_homa_ir_float d (py_neg g) = Inr w \<and> py_eq w (py_neg v))"
proof -
  from estimate_homa_ir_float_cases [of d g] assms(1)
  obtain x where v: "v = PyFloat x"
    by auto
  with assms(2) have nn: "x \<noteq> NaN"
    by auto
  then have refl: "py_eq (PyFloat (float_neg x)) (py_neg v)"
    unfolding v by (cases x) simp_all
  have zero: "py_eq v (py_neg v)" if "\<exists>s. x = Finite s 0"
    using that v by (auto simp: signed_def)
  have left: "\<exists>w. estimate_homa_ir_float (py_neg d) g = Inr w \<and> py_eq w (py_neg v)"
  proof (cases "d = PyInt 0")
    case True
    with assms(1) v nn have "\<exists>s. x = Finite s 0"
      by (intro estimate_homa_ir_float_zero_dose [of g]) simp_all
    with zero True assms(1) show ?thesis
      by simp
  next
    case False
    from estimate_homa_ir_float_neg_dose [OF False] assms(1) v refl show ?thesis
      by simp
  qed
  have right: "\<exists>w. estimate_homa_ir_float d (py_neg g) = Inr w \<and> py_eq w (py_neg v)"
  proof (cases "g = PyInt 0")
    case True
    with assms(1) v nn have "\<exists>s. x = Finite s 0"
      by (intro estimate_homa_ir_float_zero_glucose_value [of d]) simp_all
    with zero True assms(1) show ?thesis
      by simp
  next
    case False
    from estimate_homa_ir_float_neg_glucose [OF False] assms(1) v refl show ?thesis
      by simp
  qed
  from left right show ?thesis ..
qed

theorem negation_negates_witness:
  "estimate_homa_ir_float (PyInt 20) (PyInt 140) =
     Inr (PyFloat (Finite False (7207406811063893 / 2 ^ 51))) \<and>
   \<not> py_is_nan (PyFloat (Finite False (7207406811063893 / 2 ^ 51))) \<and>
   (\<exists>w. estimate_homa_ir_float (py_neg (PyInt 20)) (PyInt 140) = Inr w \<and>
      py_eq w (py_neg (PyFloat (Finite False (7207406811063893 / 2 ^ 51))))) \<and>
   (\<exists>w. estimate_homa_ir_float (PyInt 20) (py_neg (PyInt 140)) = Inr w \<and>
      py_eq w (py_neg (PyFloat (Finite False (7207406811063893 / 2 ^ 51)))))"
proof -
  note v = example_value
  have n: "\<not> py_is_nan (PyFloat (Finite False (7207406811063893 / 2 ^ 51)))"
    by simp
  from negation_negates [OF v n] v n show ?thesis
    by blast
qed

section \<open>Exceptions\<close>



end
